theory Spec2Isabelle
  imports Complex_Main "HOL-Library.AList" "HOL-Library.Char_ord" "HOL-Library.List_Lexorder"
begin

section \<open>Data model\<close>

text \<open>
  The \<open>Post\<close> interface shared by all four source files. JavaScript strings are modelled
  as \<open>string\<close> (lists of 8-bit code units), an empty string being the falsy value of a
  missing field. The numeric fields are integers. \<open>timestamp\<close> holds the value of
  \<open>new Date(post.timestamp).getTime()\<close>, the milliseconds since the epoch; parsing the
  date text is outside the engine.
\<close>

record Post =
  post_id :: string
  platform :: string
  user :: string
  content :: string
  hashtags :: string
  topic :: string
  likes :: int
  shares :: int
  comments :: int
  sentiment :: string
  timestamp :: int
  region :: string

section \<open>JavaScript strings, sets and maps\<close>

text \<open>
  \<open>String.prototype.toLowerCase\<close> on code units below 256: the letters A to Z and the
  capital letters of Latin-1 (0xC0 to 0xDE without the multiplication sign 0xD7) go to the
  code unit 32 above them; every other code unit is kept.
\<close>

definition upperChars :: "char list" where
  "upperChars =
     ''ABCDEFGHIJKLMNOPQRSTUVWXYZ''
     @ [CHR 0xC0, CHR 0xC1, CHR 0xC2, CHR 0xC3, CHR 0xC4, CHR 0xC5, CHR 0xC6, CHR 0xC7,
      CHR 0xC8, CHR 0xC9, CHR 0xCA, CHR 0xCB, CHR 0xCC, CHR 0xCD, CHR 0xCE, CHR 0xCF,
      CHR 0xD0, CHR 0xD1, CHR 0xD2, CHR 0xD3, CHR 0xD4, CHR 0xD5, CHR 0xD6, CHR 0xD8,
      CHR 0xD9, CHR 0xDA, CHR 0xDB, CHR 0xDC, CHR 0xDD, CHR 0xDE]"

definition lowerChars :: "char list" where
  "lowerChars =
     ''abcdefghijklmnopqrstuvwxyz''
     @ [CHR 0xE0, CHR 0xE1, CHR 0xE2, CHR 0xE3, CHR 0xE4, CHR 0xE5, CHR 0xE6, CHR 0xE7,
      CHR 0xE8, CHR 0xE9, CHR 0xEA, CHR 0xEB, CHR 0xEC, CHR 0xED, CHR 0xEE, CHR 0xEF,
      CHR 0xF0, CHR 0xF1, CHR 0xF2, CHR 0xF3, CHR 0xF4, CHR 0xF5, CHR 0xF6, CHR 0xF8,
      CHR 0xF9, CHR 0xFA, CHR 0xFB, CHR 0xFC, CHR 0xFD, CHR 0xFE]"

definition lowerChar :: "char \<Rightarrow> char" where
  "lowerChar c =
     (case map_of (zip upperChars lowerChars) c of
        Some d \<Rightarrow> d
      | None \<Rightarrow> c)"

definition toLowerCase :: "string \<Rightarrow> string" where
  "toLowerCase s = map lowerChar s"

text \<open>\<open>String.prototype.trim\<close>: white space is removed at both ends.\<close>

definition isSpaceChar :: "char \<Rightarrow> bool" where
  "isSpaceChar c =
     (c \<in> set [CHR '' '', CHR 0x09, CHR 0x0A, CHR 0x0B, CHR 0x0C, CHR 0x0D, CHR 0xA0])"

definition trim :: "string \<Rightarrow> string" where
  "trim s = rev (dropWhile isSpaceChar (rev (dropWhile isSpaceChar s)))"

text \<open>
  \<open>s.split(sep)\<close> for a separator of one character: the pieces between the separators,
  \<open>[""]\<close> for the empty string.
\<close>

fun splitOn :: "char \<Rightarrow> string \<Rightarrow> string list" where
  "splitOn sep [] = [[]]"
| "splitOn sep (c # cs) =
     (if c = sep then [] # splitOn sep cs
      else (case splitOn sep cs of
              w # ws \<Rightarrow> (c # w) # ws
            | [] \<Rightarrow> [[c]]))"

text \<open>\<open>xs.join(sep)\<close>\<close>

fun joinWith :: "char \<Rightarrow> string list \<Rightarrow> string" where
  "joinWith sep [] = []"
| "joinWith sep [x] = x"
| "joinWith sep (x # y # xs) = x @ sep # joinWith sep (y # xs)"

text \<open>\<open>s.includes(k)\<close>: \<open>k\<close> occurs in \<open>s\<close> as a contiguous piece.\<close>

fun startsWith :: "string \<Rightarrow> string \<Rightarrow> bool" where
  "startsWith s [] = True"
| "startsWith [] (k # ks) = False"
| "startsWith (c # cs) (k # ks) = (c = k \<and> startsWith cs ks)"

fun includesStr :: "string \<Rightarrow> string \<Rightarrow> bool" where
  "includesStr [] k = (k = [])"
| "includesStr (c # cs) k = (startsWith (c # cs) k \<or> includesStr cs k)"

text \<open>\<open>s.replace(/^#/, '')\<close>: one leading hash sign is removed.\<close>

fun replaceLeadingHash :: "string \<Rightarrow> string" where
  "replaceLeadingHash [] = []"
| "replaceLeadingHash (c # cs) = (if c = CHR ''#'' then cs else c # cs)"

text \<open>\<open>s.replace("#", "")\<close>: the first hash sign is removed, wherever it stands.\<close>

definition replaceFirstHash :: "string \<Rightarrow> string" where
  "replaceFirstHash s = remove1 (CHR ''#'') s"

text \<open>
  A JavaScript \<open>Set\<close> keeps its members in insertion order; \<open>add\<close> of a member already
  present changes nothing.
\<close>

definition setAdd :: "'a \<Rightarrow> 'a list \<Rightarrow> 'a list" where
  "setAdd x xs = (if x \<in> set xs then xs else xs @ [x])"

text \<open>
  A JavaScript \<open>Map\<close> is an association list in insertion order: \<open>get\<close> is \<^const>\<open>map_of\<close>,
  \<open>set\<close> is \<^const>\<open>AList.update\<close> (the value is replaced in place, a new key is appended), and
  \<open>(m.get(k) || 0)\<close> is \<open>getOr0\<close>.
\<close>

definition getOr0 :: "('k \<times> int) list \<Rightarrow> 'k \<Rightarrow> int" where
  "getOr0 m k = (case map_of m k of None \<Rightarrow> 0 | Some v \<Rightarrow> v)"

text \<open>\<open>Math.round\<close>: the nearest integer, halves rounded up.\<close>

definition jsRound :: "real \<Rightarrow> int" where
  "jsRound x = \<lfloor>x + 1 / 2\<rfloor>"

section \<open>Trend aggregation\<close>

text \<open>
  The raw engagement \<open>(post.likes || 0) + (post.shares || 0) + (post.comments || 0)\<close> that all
  three aggregators compute, and the weighted engagement of \<open>calculateEngagement\<close>.
\<close>

definition rawEngagement :: "Post \<Rightarrow> int" where
  "rawEngagement post = likes post + shares post + comments post"

definition calculateEngagement :: "Post \<Rightarrow> int" where
  "calculateEngagement post = likes post + shares post * 2 + comments post * 3"

definition weekMs :: int where
  "weekMs = 7 * 24 * 60 * 60 * 1000"

text \<open>\<open>Math.floor(date.getTime() / (7 * 24 * 60 * 60 * 1000))\<close>\<close>

definition weekNumOf :: "Post \<Rightarrow> int" where
  "weekNumOf post = timestamp post div weekMs"

text \<open>
  \<open>post.hashtags.split(',').map(tag => tag.trim().toLowerCase().replace(/^#/, ''))\<close>
\<close>

definition tagsOf :: "Post \<Rightarrow> string list" where
  "tagsOf post =
     map (\<lambda>tag. replaceLeadingHash (toLowerCase (trim tag))) (splitOn (CHR '','') (hashtags post))"

record TrendBase =
  keyword :: string
  posts :: "Post list"
  totalEngagement :: int

subsection \<open>TrendAnalysis.tsx, processTemporalPatterns: the trend map\<close>

record TrendData = TrendBase +
  timeSeries :: "(int \<times> int) list"

definition contentKeywords_temporal :: "string list" where
  "contentKeywords_temporal =
     [''diwali'', ''gemini'', ''llama'', ''gpt'', ''mistral'', ''chatgpt'', ''ai'',
      ''crypto'', ''bitcoin'', ''stocks'', ''isro'', ''chandrayaan'', ''space'',
      ''cricket'', ''kohli'', ''bollywood'', ''climate'', ''elections'', ''politics'',
      ''music'', ''bts'', ''taylor'', ''gaming'', ''xbox'', ''ps5'', ''ott'', ''netflix'']"

text \<open>
  The block both loops of \<open>processTemporalPatterns\<close> run for a key: create the trend when
  the map lacks it, then add the post, its engagement and its week bucket unless a post
  of the same id is already a member.
\<close>

definition addTemporal :: "string \<Rightarrow> Post \<Rightarrow> (string \<times> TrendData) list \<Rightarrow> (string \<times> TrendData) list" where
  "addTemporal key post trendMap =
     (let engagement = rawEngagement post;
          weekNum = weekNumOf post;
          m = (if map_of trendMap key = None
               then AList.update key
                      \<lparr>keyword = key, posts = [], totalEngagement = 0, timeSeries = []\<rparr> trendMap
               else trendMap)
      in case map_of m key of
           None \<Rightarrow> m
         | Some trend \<Rightarrow>
             if find (\<lambda>p. post_id p = post_id post) (posts trend) = None
             then AList.update key
                    (trend\<lparr>posts := posts trend @ [post],
                           totalEngagement := totalEngagement trend + engagement,
                           timeSeries :=
                             AList.update weekNum (getOr0 (timeSeries trend) weekNum + engagement)
                               (timeSeries trend)\<rparr>) m
             else m)"

definition temporalStep :: "Post \<Rightarrow> (string \<times> TrendData) list \<Rightarrow> (string \<times> TrendData) list" where
  "temporalStep post trendMap =
     (if rawEngagement post < 20 then trendMap
      else
        let m1 = (if hashtags post \<noteq> []
                  then fold (\<lambda>tag m. if tag \<noteq> [] \<and> length tag > 2 then addTemporal tag post m else m)
                         (tagsOf post) trendMap
                  else trendMap);
            content' = toLowerCase (content post)
        in fold (\<lambda>keyword m. if includesStr content' keyword then addTemporal keyword post m else m)
             contentKeywords_temporal m1)"

definition temporalTrendMap :: "Post list \<Rightarrow> (string \<times> TrendData) list" where
  "temporalTrendMap data = fold temporalStep data []"

subsection \<open>TrendAnalysis.tsx, processTemporalPatterns: growth rates and patterns\<close>

text \<open>The loop over the week values that pushes one growth rate per step.\<close>

fun growthRatesOf :: "int list \<Rightarrow> real list" where
  "growthRatesOf (prev # cur # vs) =
     (if prev > 0
      then max (-200) (min 200 ((real_of_int (cur - prev) / real_of_int prev) * 100))
      else (if cur > 0 then 100 else 0)) # growthRatesOf (cur # vs)"
| "growthRatesOf _ = []"

datatype pattern = emerging | sustained | declining | cyclical

record TemporalPattern =
  topic_tp :: string
  pattern_tp :: pattern
  weeklyGrowth :: "int list"
  velocity_tp :: int
  peakTime :: string
  totalEngagement_tp :: int

section \<open>Temporal classifier (TrendAnalysis.tsx, processTemporalPatterns)\<close>

text \<open>\<open>xs.slice(-k)\<close>: the last \<open>k\<close> elements; \<open>slice(-0)\<close> is \<open>slice(0)\<close>, the whole array.\<close>

definition sliceLast :: "nat \<Rightarrow> 'a list \<Rightarrow> 'a list" where
  "sliceLast k xs = (if k = 0 then xs else drop (length xs - k) xs)"

text \<open>\<open>xs.reduce((a, b) => a + b, 0)\<close>\<close>

definition reduceSum :: "real list \<Rightarrow> real" where
  "reduceSum xs = foldl (\<lambda>a b. a + b) 0 xs"

text \<open>
  The loop \<open>for (i = 1; i < growthRates.length; i++)\<close> that counts the positions whose
  sign differs from the previous rate's and whose magnitude exceeds 10.
\<close>

fun countChanges :: "real list \<Rightarrow> nat" where
  "countChanges (a # b # gs) =
     (if sgn b \<noteq> sgn a \<and> \<bar>b\<bar> > 10 then 1 else 0) + countChanges (b # gs)"
| "countChanges _ = 0"

text \<open>
  The classification of one growth-rate sequence; \<open>None\<close> is the early
  \<open>if (growthRates.length === 0) return\<close>, which emits no pattern.
\<close>

definition classifyPattern :: "real list \<Rightarrow> pattern option" where
  "classifyPattern growthRates =
     (if length growthRates = 0 then None
      else
        let avgGrowth = reduceSum growthRates / real (length growthRates);
            recentGrowth =
              reduceSum (sliceLast (min 3 (length growthRates)) growthRates)
                / real (min 3 (length growthRates))
        in Some
          (if recentGrowth > 30 \<and> avgGrowth > 15 then emerging
           else if recentGrowth < -20 \<and> avgGrowth < -10 then declining
           else if \<bar>avgGrowth\<bar> < 15 then sustained
           else if real (countChanges growthRates) \<ge> max 2 (real (length growthRates) / 3)
                then cyclical
           else sustained))"

text \<open>
  The body of \<open>trendMap.forEach\<close>: a trend with fewer than two posts, fewer than two weeks
  or no growth rate emits nothing.
\<close>

definition patternOf :: "TrendData \<Rightarrow> TemporalPattern option" where
  "patternOf trendData =
     (if length (posts trendData) < 2 then None
      else
        let weeks = sort (map fst (timeSeries trendData)) in
        if length weeks < 2 then None
        else
          let values = map (\<lambda>week. getOr0 (timeSeries trendData) week) weeks;
              growthRates = growthRatesOf values
          in case classifyPattern growthRates of
               None \<Rightarrow> None
             | Some pat \<Rightarrow>
                 let recentGrowth =
                       reduceSum (sliceLast (min 3 (length growthRates)) growthRates)
                         / real (min 3 (length growthRates));
                     velocity = jsRound (max (-100) (min 100 recentGrowth))
                 in Some \<lparr>topic_tp = keyword trendData,
                          pattern_tp = pat,
                          weeklyGrowth = map jsRound growthRates,
                          velocity_tp = velocity,
                          peakTime =
                            (if pat = emerging then ''Expected in 2-4 weeks''
                             else if pat = declining then ''Peaked recently''
                             else ''Currently stable''),
                          totalEngagement_tp = totalEngagement trendData\<rparr>)"

text \<open>
  \<open>patterns.sort((a, b) => b.totalEngagement - a.totalEngagement)\<close>: the sort is stable, so
  a descending sort is \<^const>\<open>sort_key\<close> on the negated key.
\<close>

definition processTemporalPatterns :: "Post list \<Rightarrow> TemporalPattern list" where
  "processTemporalPatterns data =
     sort_key (\<lambda>p. - totalEngagement_tp p)
       (List.map_filter (\<lambda>(k, trendData). patternOf trendData) (temporalTrendMap data))"

subsection \<open>The classifier as the specification words it\<close>






section \<open>Dashboard trends (the two dashboard files)\<close>

record TrendEntry = TrendBase +
  topics :: "string list"
  platforms :: "string list"

record Trend = TrendEntry +
  avgEngagement :: real

record TrendMetrics =
  support :: real
  velocity :: real
  momentum :: real
  trendScore :: real

text \<open>
  The scored dashboard returns a trend together with the four metrics; they are kept as
  one nested record here.
\<close>

record ScoredTrend = Trend +
  metrics :: TrendMetrics

definition ensureTrend :: "string \<Rightarrow> (string \<times> TrendEntry) list \<Rightarrow> (string \<times> TrendEntry) list" where
  "ensureTrend key trendMap =
     (if map_of trendMap key = None
      then AList.update key
             \<lparr>keyword = key, posts = [], totalEngagement = 0, topics = [], platforms = []\<rparr> trendMap
      else trendMap)"

text \<open>
  \<open>trend.posts.push(post); trend.totalEngagement += engagement; trend.topics.add(post.topic);
  trend.platforms.add(post.platform)\<close> on the trend of a key that the map holds.
\<close>

definition pushPost :: "string \<Rightarrow> Post \<Rightarrow> (string \<times> TrendEntry) list \<Rightarrow> (string \<times> TrendEntry) list" where
  "pushPost key post trendMap =
     (case map_of trendMap key of
        None \<Rightarrow> trendMap
      | Some trend \<Rightarrow>
          AList.update key
            (trend\<lparr>posts := posts trend @ [post],
                   totalEngagement := totalEngagement trend + rawEngagement post,
                   topics := setAdd (topic post) (topics trend),
                   platforms := setAdd (platform post) (platforms trend)\<rparr>) trendMap)"

text \<open>The same behind \<open>if (!trend.posts.find(p => p.post_id === post.post_id))\<close>.\<close>

definition pushPostIfAbsent :: "string \<Rightarrow> Post \<Rightarrow> (string \<times> TrendEntry) list \<Rightarrow> (string \<times> TrendEntry) list" where
  "pushPostIfAbsent key post trendMap =
     (case map_of trendMap key of
        None \<Rightarrow> trendMap
      | Some trend \<Rightarrow>
          if find (\<lambda>p. post_id p = post_id post) (posts trend) = None
          then pushPost key post trendMap
          else trendMap)"

subsection \<open>The dashboard without scores: extractTrends, threshold 100\<close>

definition contentKeywords_basic :: "string list" where
  "contentKeywords_basic =
     [''diwali'', ''gemini'', ''llama'', ''llama2'', ''llama-3'', ''gpt-5'', ''mistral'',
      ''bts'', ''taylor swift'', ''beyonc'' @ [CHR 0xE9], ''arijit singh'', ''bad bunny'',
      ''crypto'', ''bitcoin'', ''stocks'', ''markets'',
      ''isro'', ''chandrayaan'', ''space'',
      ''worldcup'', ''cricket'', ''kohli'', ''babar'', ''smith'',
      ''aamir khan'', ''ranveer singh'',
      ''heatwave'', ''climate'', ''cop29'', ''sustainability'',
      ''apple'', ''m5'', ''netflix'', ''gaming'', ''xbox'', ''ps5'',
      ''elections'', ''politics'', ''vote'']"

definition trendStep_basic :: "Post \<Rightarrow> (string \<times> TrendEntry) list \<Rightarrow> (string \<times> TrendEntry) list" where
  "trendStep_basic post trendMap =
     (if rawEngagement post < 100 then trendMap
      else
        let m1 = (if hashtags post \<noteq> []
                  then fold (\<lambda>tag m. if tag \<noteq> [] \<and> length tag > 2
                                     then pushPost tag post (ensureTrend tag m) else m)
                         (tagsOf post) trendMap
                  else trendMap);
            content' = toLowerCase (content post)
        in fold (\<lambda>keyword m. if includesStr content' keyword
                               then pushPost keyword post (ensureTrend keyword m) else m)
             contentKeywords_basic m1)"

definition extractTrends_basic :: "Post list \<Rightarrow> Trend list" where
  "extractTrends_basic data =
     (if length data = 0 then []
      else
        map (\<lambda>trend. \<lparr>keyword = keyword trend, posts = posts trend,
                        totalEngagement = totalEngagement trend,
                        topics = topics trend, platforms = platforms trend,
                        avgEngagement =
                          real_of_int (totalEngagement trend) / real (length (posts trend))\<rparr>)
          (sort_key (\<lambda>trend. - totalEngagement trend)
             (filter (\<lambda>trend. length (posts trend) \<ge> 2)
                (map snd (fold trendStep_basic data [])))))"

subsection \<open>The dashboard with scores: calculateTrendMetrics and extractTrends, threshold 50\<close>

text \<open>
  \<open>posts.reduce((sum, p) => sum + p.likes + p.shares + p.comments, 0)\<close>
\<close>

definition engagementSum :: "Post list \<Rightarrow> int" where
  "engagementSum ps = foldl (\<lambda>sum p. sum + likes p + shares p + comments p) 0 ps"

text \<open>
  The locals \<open>avgEngagement\<close> and \<open>engagementScore\<close> of \<open>calculateTrendMetrics\<close>, over the
  real numbers (\<open>Math.log10\<close> is the logarithm to base 10).
\<close>

definition avgEngagementOf :: "Post list \<Rightarrow> real" where
  "avgEngagementOf ps = real_of_int (engagementSum ps) / real (length ps)"

definition engagementScore :: "Post list \<Rightarrow> real" where
  "engagementScore ps = log 10 (avgEngagementOf ps + 1) / 5"

text \<open>
  \<open>calculateTrendMetrics\<close>; \<open>now\<close> is the value of \<open>new Date().getTime()\<close> at the call.
\<close>

definition calculateTrendMetrics :: "int \<Rightarrow> Post list \<Rightarrow> nat \<Rightarrow> TrendMetrics" where
  "calculateTrendMetrics now ps totalPosts =
     (if length ps = 0 then \<lparr>support = 0, velocity = 0, momentum = 0, trendScore = 0\<rparr>
      else
        let support' = real (length ps) / real totalPosts;
            sortedPosts = sort_key timestamp ps;
            last7d = filter (\<lambda>p. real_of_int (now - timestamp p) / (1000 * 60 * 60 * 24) \<le> 7)
                       sortedPosts;
            last30d = filter (\<lambda>p. real_of_int (now - timestamp p) / (1000 * 60 * 60 * 24) \<le> 30)
                        sortedPosts;
            recentRate = real (length last7d) / 7;
            olderRate = (real (length last30d) - real (length last7d)) / 23;
            velocity' = (if olderRate > 0 then (recentRate - olderRate) / olderRate
                         else recentRate);
            midpoint = length sortedPosts div 2;
            recentPosts = drop midpoint sortedPosts;
            olderPosts = take midpoint sortedPosts;
            recentEngagement = real_of_int (engagementSum recentPosts) / real (length recentPosts);
            olderEngagement = real_of_int (engagementSum olderPosts) / real (length olderPosts);
            momentum' = (if olderEngagement > 0
                         then (recentEngagement - olderEngagement) / olderEngagement else 1);
            uniquePlatforms = card (set (map platform ps));
            uniqueTopics = card (set (map topic ps));
            diversityScore = (real uniquePlatforms / 5 + real uniqueTopics / 12) / 2;
            avgRecency =
              foldl (\<lambda>sum p. sum + exp (- (real_of_int (now - timestamp p) / (1000 * 60 * 60)) / 168))
                0 ps / real (length ps);
            trendScore' =
              support' * 100 + velocity' * 50 + momentum' * 30 + engagementScore ps * 40
                + diversityScore * 20 + avgRecency * 30
        in \<lparr>support = real_of_int (jsRound (support' * 10000)) / 100,
            velocity = real_of_int (jsRound (velocity' * 100)) / 100,
            momentum = real_of_int (jsRound (momentum' * 100)) / 100,
            trendScore = real_of_int (jsRound (trendScore' * 100)) / 100\<rparr>)"

definition contentKeywords_scored :: "string list" where
  "contentKeywords_scored =
     [''diwali'', ''gemini'', ''llama'', ''llama2'', ''llama-3'', ''gpt-5'', ''mistral'', ''chatgpt'',
      ''bts'', ''taylor swift'', ''beyonc'' @ [CHR 0xE9], ''arijit singh'', ''bad bunny'',
      ''crypto'', ''bitcoin'', ''stocks'', ''markets'', ''ethereum'',
      ''isro'', ''chandrayaan'', ''space'', ''nasa'', ''spacex'',
      ''worldcup'', ''cricket'', ''kohli'', ''babar'', ''smith'', ''indvpak'',
      ''aamir khan'', ''ranveer singh'', ''bollywood'', ''ott'', ''netflix'',
      ''heatwave'', ''climate'', ''cop29'', ''sustainability'',
      ''apple'', ''m5'', ''oneplus'', ''gaming'', ''xbox'', ''ps5'',
      ''elections'', ''politics'', ''vote'', ''festival'', ''music'']"

definition trendStep_scored :: "Post \<Rightarrow> (string \<times> TrendEntry) list \<Rightarrow> (string \<times> TrendEntry) list" where
  "trendStep_scored post trendMap =
     (if rawEngagement post < 50 then trendMap
      else
        let m1 = (if hashtags post \<noteq> []
                  then fold (\<lambda>tag m. if tag \<noteq> [] \<and> length tag > 2
                                     then pushPost tag post (ensureTrend tag m) else m)
                         (tagsOf post) trendMap
                  else trendMap);
            content' = toLowerCase (content post)
        in fold (\<lambda>keyword m. if includesStr content' keyword
                               then pushPostIfAbsent keyword post (ensureTrend keyword m) else m)
             contentKeywords_scored m1)"

definition extractTrends_scored :: "int \<Rightarrow> Post list \<Rightarrow> ScoredTrend list" where
  "extractTrends_scored now data =
     (if length data = 0 then []
      else
        sort_key (\<lambda>t. - trendScore (metrics t))
          (map (\<lambda>trend. \<lparr>keyword = keyword trend, posts = posts trend,
                          totalEngagement = totalEngagement trend,
                          topics = topics trend, platforms = platforms trend,
                          avgEngagement =
                            real_of_int (totalEngagement trend) / real (length (posts trend)),
                          metrics = calculateTrendMetrics now (posts trend) (length data)\<rparr>)
             (filter (\<lambda>trend. length (posts trend) \<ge> 2)
                (map snd (fold trendStep_scored data [])))))"

section \<open>Pattern mining (the pattern-mining page)\<close>

text \<open>
  \<open>extractHashtags\<close>: the pieces of the hashtag field between commas, trimmed, the first
  hash sign removed, the empty ones dropped.
\<close>

definition extractHashtags :: "string \<Rightarrow> string list" where
  "extractHashtags hashtagStr =
     (if hashtagStr = [] then []
      else filter (\<lambda>h. length h > 0)
             (map (\<lambda>h. replaceFirstHash (trim h)) (splitOn (CHR '','') hashtagStr)))"

definition isUpper :: "char \<Rightarrow> bool" where
  "isUpper c = (c \<in> set ''ABCDEFGHIJKLMNOPQRSTUVWXYZ'')"

definition isLower :: "char \<Rightarrow> bool" where
  "isLower c = (c \<in> set ''abcdefghijklmnopqrstuvwxyz'')"

definition isWordChar :: "char \<Rightarrow> bool" where
  "isWordChar c = (isUpper c \<or> isLower c \<or> c \<in> set ''0123456789_'')"

text \<open>
  \<open>content.match(/\b[A-Z][a-z]+\b/g)\<close>: the matches from left to right. A match starts at
  an upper-case letter that no word character precedes, takes the whole run of lower-case
  letters behind it, which must not be empty, and must be followed by no word character;
  a shorter run would end before a lower-case letter, where no word boundary is. The
  search goes on behind a match, and at the next character where there is none.
  \<open>prevWord\<close> tells whether the character before the current position is a word character.
\<close>

function matchCapitalized :: "bool \<Rightarrow> string \<Rightarrow> string list" where
  "matchCapitalized prevWord [] = []"
| "matchCapitalized prevWord (c # cs) =
     (if \<not> prevWord \<and> isUpper c \<and> takeWhile isLower cs \<noteq> []
         \<and> (case dropWhile isLower cs of [] \<Rightarrow> True | d # _ \<Rightarrow> \<not> isWordChar d)
      then (c # takeWhile isLower cs) # matchCapitalized True (dropWhile isLower cs)
      else matchCapitalized (isWordChar c) cs)"
  by pat_completeness auto
termination
  by (relation "measure (\<lambda>(p, s). length s)") (auto simp: length_dropWhile_le less_Suc_eq_le)

text \<open>\<open>extractKeywords\<close>: the first two capitalized words of the content.\<close>

definition extractKeywords :: "string \<Rightarrow> string list" where
  "extractKeywords content' =
     (if content' = [] then [] else take 2 (matchCapitalized False content'))"

record ItemsetData =
  count :: nat
  topics_seen :: "string list"

record PairData = ItemsetData +
  posts_kept :: "Post list"

datatype direction = RisingFast | Growing | Fading | Declining | Stable

record Example =
  post_id_ex :: string
  content_ex :: string
  engagement_score :: int

record Counted =
  occurrence_count :: nat

record Scored = Counted +
  trend_strength :: real
  popularity_score :: int
  trend_direction :: direction

record AssociationRule = Scored +
  rule :: string
  antecedent :: "string list"
  consequent :: "string list"
  growth_rate :: int
  engagement_impact :: int
  platforms_top :: "string list"
  examples :: "Example list"

record FrequentItemset = Scored +
  items :: "string list"

record SequentialPattern = Counted +
  sequence :: "string list"
  pattern_strength :: int
  avg_duration :: string

subsection \<open>mineAssociationRules: counting the item pairs\<close>

text \<open>
  The items of a post, in the insertion order of the \<open>Set\<close>: the topic, the first two
  hashtags, the keywords.
\<close>

definition itemsOf :: "Post \<Rightarrow> string list" where
  "itemsOf post =
     fold setAdd (extractKeywords (content post))
       (fold setAdd (take 2 (extractHashtags (hashtags post))) (setAdd (topic post) []))"

text \<open>The index pairs \<open>i < j\<close> of the two nested loops, in the order the loops visit them.\<close>

fun pairsOf :: "'a list \<Rightarrow> ('a \<times> 'a) list" where
  "pairsOf [] = []"
| "pairsOf (x # xs) = map (Pair x) xs @ pairsOf xs"

definition pairKeyOf :: "string \<times> string \<Rightarrow> string" where
  "pairKeyOf ab = joinWith (CHR ''|'') (sort [fst ab, snd ab])"

definition addPair :: "Post \<Rightarrow> string \<times> string \<Rightarrow> (string \<times> PairData) list \<Rightarrow> (string \<times> PairData) list" where
  "addPair post ab itemPairs =
     (let pair = pairKeyOf ab;
          m = (if map_of itemPairs pair = None
               then AList.update pair \<lparr>count = 0, topics_seen = [], posts_kept = []\<rparr> itemPairs
               else itemPairs)
      in case map_of m pair of
           None \<Rightarrow> m
         | Some pairData \<Rightarrow>
             AList.update pair
               (pairData\<lparr>count := count pairData + 1,
                          topics_seen := setAdd (topic post) (topics_seen pairData),
                          posts_kept := (if length (posts_kept pairData) < 5
                                         then posts_kept pairData @ [post]
                                         else posts_kept pairData)\<rparr>) m)"

definition pairStep :: "Post \<Rightarrow> (string \<times> PairData) list \<Rightarrow> (string \<times> PairData) list" where
  "pairStep post itemPairs =
     (if topic post = [] then itemPairs
      else fold (addPair post) (pairsOf (itemsOf post)) itemPairs)"

definition itemPairsOf :: "Post list \<Rightarrow> (string \<times> PairData) list" where
  "itemPairsOf data = fold pairStep data []"

subsection \<open>mineAssociationRules: one rule per surviving pair\<close>

text \<open>
  \<open>const [item1, item2] = pairKey.split("|")\<close>. A key is two items joined by a bar, so
  the split has at least two pieces; the shorter cases stand for \<open>undefined\<close>.
\<close>

fun firstTwo :: "string list \<Rightarrow> string \<times> string" where
  "firstTwo (a # b # _) = (a, b)"
| "firstTwo [a] = (a, [])"
| "firstTwo [] = ([], [])"

definition contextualPostsOf :: "Post list \<Rightarrow> string \<Rightarrow> string \<Rightarrow> nat" where
  "contextualPostsOf data item1 item2 =
     length (filter (\<lambda>p.
         (content p \<noteq> [] \<and> includesStr (toLowerCase (content p)) (toLowerCase item1))
       \<or> (content p \<noteq> [] \<and> includesStr (toLowerCase (content p)) (toLowerCase item2))
       \<or> (topic p \<noteq> [] \<and> includesStr (topic p) item1)
       \<or> (topic p \<noteq> [] \<and> includesStr (topic p) item2)
       \<or> list_ex (\<lambda>h. h = item1 \<or> h = item2) (extractHashtags (hashtags p))) data)"

text \<open>
  The growth rate of a pair from its kept posts, sorted by time. \<open>r\<close> is the value that
  \<open>Math.random()\<close> returns if it is called; the second component tells whether it was.
\<close>

definition growthRateOf :: "real \<Rightarrow> Post list \<Rightarrow> int \<times> bool" where
  "growthRateOf r sortedPosts =
     (if length sortedPosts \<ge> 2 then
        let timeGroups = fold (\<lambda>post tg. AList.update (weekNumOf post)
                                 (getOr0 tg (weekNumOf post) + 1) tg) sortedPosts [];
            weeks = sort (map fst timeGroups)
        in if length weeks \<ge> 2 then
             let firstWeekCount = getOr0 timeGroups (weeks ! 0);
                 lastWeekCount = getOr0 timeGroups (weeks ! (length weeks - 1));
                 middleWeekCount = getOr0 timeGroups (weeks ! (length weeks div 2))
             in if firstWeekCount > 0 then
                  let rawGrowth =
                        (real_of_int (lastWeekCount - firstWeekCount) / real_of_int firstWeekCount)
                          * 100
                  in if rawGrowth > 0 then
                       let growthRate = jsRound (min 100 (50 + rawGrowth / 4))
                       in if middleWeekCount > firstWeekCount \<and> lastWeekCount > middleWeekCount
                          then (min 100 (growthRate + 15), False)
                          else (growthRate, False)
                     else (jsRound (max (-50) (rawGrowth / 2)), False)
                else if lastWeekCount > 0 then (min 75 (30 + lastWeekCount * 5), False)
                else (0, False)
           else
             let baseGrowth = 10 + r * 20
             in (jsRound (if length sortedPosts > 5 then baseGrowth else baseGrowth * (1 / 2)), True)
      else (jsRound (r * 15), True))"

text \<open>
  The labels are Rising Fast, Growing, Fading, Declining and Stable, each behind a
  pictograph in the source.
\<close>

definition trendDirectionOf :: "int \<Rightarrow> direction" where
  "trendDirectionOf growthRate =
     (if growthRate > 50 then RisingFast
      else if growthRate > 15 then Growing
      else if growthRate < -50 then Fading
      else if growthRate < -15 then Declining
      else Stable)"

definition topPlatforms :: "Post list \<Rightarrow> string list" where
  "topPlatforms ps =
     map fst (take 3 (sort_key (\<lambda>e. - snd e)
       (fold (\<lambda>p platformCounts. AList.update (platform p)
                (getOr0 platformCounts (platform p) + 1) platformCounts) ps [])))"

definition exampleOf :: "Post \<Rightarrow> Example" where
  "exampleOf p =
     \<lparr>post_id_ex = post_id p,
      content_ex = take 120 (content p) @ ''...'',
      engagement_score = calculateEngagement p\<rparr>"

text \<open>
  The rule of one pair and whether \<open>Math.random()\<close> was called for it. The kept posts are
  sorted in place first, so everything behind reads them in time order.
\<close>

definition buildRule :: "Post list \<Rightarrow> real \<Rightarrow> string \<Rightarrow> PairData \<Rightarrow> AssociationRule \<times> bool" where
  "buildRule data r pairKey pairData =
     (let totalPosts = length data;
          (item1, item2) = firstTwo (splitOn (CHR ''|'') pairKey);
          contextualPosts = contextualPostsOf data item1 item2;
          popularityScore =
            (if contextualPosts > 0
             then min 85 (jsRound ((real (count pairData) / real contextualPosts) * 100))
             else jsRound ((real (count pairData) / real totalPosts) * 100 * 15));
          sortedPosts = sort_key timestamp (posts_kept pairData);
          (growthRate, called) = growthRateOf r sortedPosts
      in (\<lparr>occurrence_count = count pairData,
           trend_strength = real (count pairData) / real totalPosts,
           popularity_score = popularityScore,
           trend_direction = trendDirectionOf growthRate,
           rule = ''When discussing '' @ item1 @ '', users often mention '' @ item2,
           antecedent = [item1],
           consequent = [item2],
           growth_rate = growthRate,
           engagement_impact =
             jsRound (real_of_int (foldl (\<lambda>sum p. sum + calculateEngagement p) 0 sortedPosts)
                        / real (length sortedPosts)),
           platforms_top = topPlatforms sortedPosts,
           examples = map exampleOf (take 2 sortedPosts)\<rparr>, called))"

text \<open>
  \<open>itemPairs.forEach\<close>: a pair counted fewer than 8 times is skipped; the rule of any other
  is appended to the rules of its primary topic, the first topic the pair was seen with.
  \<open>rnd\<close> is the sequence of values of \<open>Math.random()\<close> and \<open>n\<close> the number of calls so far.
\<close>

definition ruleStep ::
  "Post list \<Rightarrow> (nat \<Rightarrow> real) \<Rightarrow> string \<times> PairData
     \<Rightarrow> (string \<times> AssociationRule list) list \<times> nat
     \<Rightarrow> (string \<times> AssociationRule list) list \<times> nat" where
  "ruleStep data rnd entry state =
     (let (pairKey, pairData) = entry;
          (rulesByTopic, n) = state
      in if count pairData < 8 then (rulesByTopic, n)
         else
           let (rule', called) = buildRule data (rnd n) pairKey pairData;
               primaryTopic = (case topics_seen pairData of [] \<Rightarrow> [] | t # _ \<Rightarrow> t);
               topicRules = (case map_of rulesByTopic primaryTopic of None \<Rightarrow> [] | Some rs \<Rightarrow> rs)
           in (AList.update primaryTopic (topicRules @ [rule']) rulesByTopic,
               if called then n + 1 else n))"

definition rulesByTopicOf :: "(nat \<Rightarrow> real) \<Rightarrow> Post list \<Rightarrow> (string \<times> AssociationRule list) list" where
  "rulesByTopicOf rnd data = fst (fold (ruleStep data rnd) (itemPairsOf data) ([], 0))"

subsection \<open>mineAssociationRules: topic diversity\<close>

definition byCountDesc :: "'a Counted_scheme list \<Rightarrow> 'a Counted_scheme list" where
  "byCountDesc xs = sort_key (\<lambda>x. - int (occurrence_count x)) xs"

text \<open>
  The first pass sorts the rules of each topic in place and takes the first; the state is
  the list of diverse rules, the processed topics and the map with its sorted lists.
\<close>

definition firstPassStep ::
  "string \<times> AssociationRule list
     \<Rightarrow> AssociationRule list \<times> string list \<times> (string \<times> AssociationRule list) list
     \<Rightarrow> AssociationRule list \<times> string list \<times> (string \<times> AssociationRule list) list" where
  "firstPassStep entry state =
     (let (topic', topicRules) = entry;
          (diverseRules, processedTopics, rulesByTopic) = state
      in if topic' \<notin> set processedTopics
         then (diverseRules @ take 1 (byCountDesc topicRules),
               setAdd topic' processedTopics,
               rulesByTopic @ [(topic', byCountDesc topicRules)])
         else (diverseRules, processedTopics, rulesByTopic @ [(topic', topicRules)]))"

definition secondPassStep :: "AssociationRule \<Rightarrow> AssociationRule list \<Rightarrow> AssociationRule list" where
  "secondPassStep rule' diverseRules =
     (if length diverseRules < 50 \<and> find (\<lambda>r. rule r = rule rule') diverseRules = None
      then diverseRules @ [rule']
      else diverseRules)"

definition diversify :: "(string \<times> AssociationRule list) list \<Rightarrow> AssociationRule list" where
  "diversify rulesByTopic =
     (let (diverseRules, processedTopics, rulesByTopic') =
            fold firstPassStep rulesByTopic ([], [], []);
          allRules = byCountDesc (concat (map snd rulesByTopic'))
      in take 30 (fold secondPassStep allRules diverseRules))"

definition mineAssociationRules :: "(nat \<Rightarrow> real) \<Rightarrow> Post list \<Rightarrow> AssociationRule list" where
  "mineAssociationRules rnd data = diversify (rulesByTopicOf rnd data)"

subsection \<open>mineFrequentItemsets\<close>

definition itemsetStep :: "Post \<Rightarrow> (string \<times> ItemsetData) list \<Rightarrow> (string \<times> ItemsetData) list" where
  "itemsetStep post itemsetCounts =
     (if topic post = [] then itemsetCounts
      else
        let itemArray =
              sort (fold setAdd (take 2 (extractHashtags (hashtags post))) (setAdd (topic post) []))
        in if length itemArray \<ge> 2 then
             let key = joinWith (CHR ''|'') itemArray;
                 m = (if map_of itemsetCounts key = None
                      then AList.update key \<lparr>count = 0, topics_seen = []\<rparr> itemsetCounts
                      else itemsetCounts)
             in case map_of m key of
                  None \<Rightarrow> m
                | Some itemsetData \<Rightarrow>
                    AList.update key
                      (itemsetData\<lparr>count := count itemsetData + 1,
                                     topics_seen := setAdd (topic post) (topics_seen itemsetData)\<rparr>) m
           else itemsetCounts)"

definition itemsetCountsOf :: "Post list \<Rightarrow> (string \<times> ItemsetData) list" where
  "itemsetCountsOf data = fold itemsetStep data []"

definition itemsetEntryStep ::
  "nat \<Rightarrow> string \<times> ItemsetData \<Rightarrow> (string \<times> FrequentItemset list) list
     \<Rightarrow> (string \<times> FrequentItemset list) list" where
  "itemsetEntryStep totalPosts entry itemsetsByTopic =
     (let (key, data') = entry
      in if count data' < 8 then itemsetsByTopic
         else
           let itemset =
                 \<lparr>occurrence_count = count data',
                  trend_strength = real (count data') / real totalPosts,
                  popularity_score =
                    min 80 (jsRound ((real (count data') / real totalPosts) * 100 * 12)),
                  trend_direction = Stable,
                  items = splitOn (CHR ''|'') key\<rparr>;
               primaryTopic = (case topics_seen data' of [] \<Rightarrow> [] | t # _ \<Rightarrow> t);
               topicItemsets =
                 (case map_of itemsetsByTopic primaryTopic of None \<Rightarrow> [] | Some xs \<Rightarrow> xs)
           in AList.update primaryTopic (topicItemsets @ [itemset]) itemsetsByTopic)"

definition mineFrequentItemsets :: "Post list \<Rightarrow> FrequentItemset list" where
  "mineFrequentItemsets data =
     (let itemsetsByTopic = fold (itemsetEntryStep (length data)) (itemsetCountsOf data) [];
          diverseItemsets =
            fold (\<lambda>entry diverse. diverse @ take 2 (byCountDesc (snd entry))) itemsetsByTopic []
      in take 24 (byCountDesc diverseItemsets))"

subsection \<open>mineSequentialPatterns\<close>

text \<open>
  The sequence of a user is a list of pairs of topic and time, in the order of the posts.
\<close>

definition sequenceStep ::
  "Post \<Rightarrow> (string \<times> (string \<times> int) list) list \<Rightarrow> (string \<times> (string \<times> int) list) list" where
  "sequenceStep post userSequences =
     (if user post = [] \<or> topic post = [] then userSequences
      else
        let m = (if map_of userSequences (user post) = None
                 then AList.update (user post) [] userSequences
                 else userSequences)
        in case map_of m (user post) of
             None \<Rightarrow> m
           | Some s \<Rightarrow> AList.update (user post) (s @ [(topic post, timestamp post)]) m)"

definition userSequencesOf :: "Post list \<Rightarrow> (string \<times> (string \<times> int) list) list" where
  "userSequencesOf data = fold sequenceStep data []"

text \<open>
  The loop over the consecutive pairs of one sorted sequence; the state is the map of
  counts and the map of timings.
\<close>

fun transitions ::
  "(string \<times> int) list \<Rightarrow> (string \<times> int) list \<times> (string \<times> real list) list
     \<Rightarrow> (string \<times> int) list \<times> (string \<times> real list) list" where
  "transitions (a # b # rest) (sequenceCounts, sequenceTimings) =
     transitions (b # rest)
       (if fst a \<noteq> fst b then
          let seq = fst a @ ''|'' @ fst b;
              timeDiff = snd b - snd a;
              days = real_of_int timeDiff / (1000 * 60 * 60 * 24);
              timings = (case map_of sequenceTimings seq of None \<Rightarrow> [] | Some ts \<Rightarrow> ts)
          in (AList.update seq (getOr0 sequenceCounts seq + 1) sequenceCounts,
              AList.update seq (timings @ [days]) sequenceTimings)
        else (sequenceCounts, sequenceTimings))"
| "transitions _ state = state"

definition sequenceCountsOf ::
  "Post list \<Rightarrow> (string \<times> int) list \<times> (string \<times> real list) list" where
  "sequenceCountsOf data =
     fold (\<lambda>entry state. transitions (sort_key snd (snd entry)) state) (userSequencesOf data)
       ([], [])"

definition avgDurationOf :: "real list \<Rightarrow> string" where
  "avgDurationOf timings =
     (if length timings > 0 then
        let avgDays = foldl (\<lambda>a b. a + b) 0 timings / real (length timings)
        in if avgDays < 1 then ''< 1 day''
           else if avgDays < 3 then ''1-3 days''
           else if avgDays < 7 then ''3-7 days''
           else if avgDays < 14 then ''1-2 weeks''
           else ''2+ weeks''
      else ''1-7 days'')"

definition patternStep ::
  "nat \<Rightarrow> (string \<times> real list) list \<Rightarrow> string \<times> int \<Rightarrow> SequentialPattern list
     \<Rightarrow> SequentialPattern list" where
  "patternStep totalUsers sequenceTimings entry patterns =
     (let (seq, count') = entry
      in if count' < 3 then patterns
         else
           let (topic1, topic2) = firstTwo (splitOn (CHR ''|'') seq);
               baseStrength = (real_of_int count' / real (max totalUsers 20)) * 100;
               patternStrength = min 85 (jsRound (20 + baseStrength * 15));
               timings = (case map_of sequenceTimings seq of None \<Rightarrow> [] | Some ts \<Rightarrow> ts)
           in patterns @
                [\<lparr>occurrence_count = nat count',
                  sequence = [topic1, topic2],
                  pattern_strength = patternStrength,
                  avg_duration = avgDurationOf timings\<rparr>])"

definition mineSequentialPatterns :: "Post list \<Rightarrow> SequentialPattern list" where
  "mineSequentialPatterns data =
     (let (sequenceCounts, sequenceTimings) = sequenceCountsOf data;
          totalUsers = length (userSequencesOf data);
          patterns = fold (patternStep totalUsers sequenceTimings) sequenceCounts []
      in take 15 (byCountDesc patterns))"

section \<open>Example inputs\<close>

definition examplePost :: "string \<Rightarrow> string \<Rightarrow> string \<Rightarrow> string \<Rightarrow> string \<Rightarrow> int \<Rightarrow> int \<Rightarrow> int \<Rightarrow> int \<Rightarrow> Post" where
  "examplePost pid usr tags txt tpc l s c ts =
     \<lparr>post_id = pid, platform = ''Twitter'', user = usr, content = txt, hashtags = tags,
      topic = tpc, likes = l, shares = s, comments = c, sentiment = ''neutral'',
      timestamp = ts, region = ''IN''\<rparr>"

text \<open>One post that carries the hashtag \<open>#cricket\<close> and the word cricket in its text.\<close>

definition cricketPost :: Post where
  "cricketPost = examplePost ''p1'' ''asha'' ''#cricket'' ''cricket tonight'' ''Cricket'' 100 0 0 0"

text \<open>One post that names the same hashtag twice.\<close>

definition twiceTaggedPost :: Post where
  "twiceTaggedPost = examplePost ''p1'' ''asha'' ''#ipl,#ipl'' ''what a match'' ''Cricket'' 50 0 0 0"

text \<open>One post with 20 likes and one share under the hashtag \<open>#abc\<close>.\<close>

definition sharedPost :: Post where
  "sharedPost = examplePost ''p1'' ''asha'' ''#abc'' ''hello'' ''Gaming'' 20 1 0 0"


text \<open>The trend that the temporal aggregator builds from \<open>sharedPost\<close> alone.\<close>

definition sharedTrend :: TrendData where
  "sharedTrend =
     \<lparr>keyword = ''abc'', posts = [sharedPost], totalEngagement = 21, timeSeries = [(0, 21)]\<rparr>"

text \<open>The trend map entry that the dashboard with scores builds from \<open>twiceTaggedPost\<close> alone.\<close>

definition iplTrend :: TrendEntry where
  "iplTrend =
     \<lparr>keyword = ''ipl'', posts = [twiceTaggedPost, twiceTaggedPost], totalEngagement = 100,
      topics = [''Cricket''], platforms = [''Twitter'']\<rparr>"

text \<open>
  Eleven posts under the hashtag \<open>#x\<close>: three users post topic A eight times in all and
  then topic B once each.
\<close>

definition miningData :: "Post list" where
  "miningData =
     map (\<lambda>(u, ts). examplePost ''p'' u ''#x'' ''hello'' ''A'' 1 1 1 ts)
       [(''u1'', 0), (''u2'', 1), (''u3'', 2), (''u1'', 3), (''u2'', 4), (''u3'', 5),
        (''u1'', 6), (''u2'', 7)]
     @ map (\<lambda>u. examplePost ''p'' u ''#x'' ''hello'' ''B'' 1 1 1 100) [''u1'', ''u2'', ''u3'']"

text \<open>Two posts under \<open>#abc\<close> in consecutive weeks, the second with twice the likes.\<close>

definition twoWeekData :: "Post list" where
  "twoWeekData =
     [examplePost ''p1'' ''asha'' ''#abc'' ''hello'' ''Gaming'' 20 0 0 0,
      examplePost ''p2'' ''asha'' ''#abc'' ''hello'' ''Gaming'' 40 0 0 604800000]"

text \<open>A \<open>Math.random()\<close> that returns the same value at every call.\<close>

definition constRandom :: "real \<Rightarrow> nat \<Rightarrow> real" where
  "constRandom r n = r"

text \<open>
  Eight posts of the one topic Gaming, with no hashtags and the text \<open>Hello\<close>, two of them
  a week before the others.
\<close>

definition capsData :: "Post list" where
  "capsData =
     map (\<lambda>ts. examplePost ''p'' ''asha'' [] ''Hello'' ''Gaming'' 1 1 1 ts)
       [0, 0, 700000000, 700000000, 700000000, 700000000, 700000000, 700000000]"

text \<open>The same eight posts with the text in lower case.\<close>

definition plainData :: "Post list" where
  "plainData =
     map (\<lambda>ts. examplePost ''p'' ''asha'' [] ''hello'' ''Gaming'' 1 1 1 ts)
       [0, 0, 700000000, 700000000, 700000000, 700000000, 700000000, 700000000]"

text \<open>Eight posts whose topic is \<open>b|a\<close>, under the hashtag \<open>#c\<close>.\<close>

definition barData :: "Post list" where
  "barData =
     map (\<lambda>ts. examplePost ''p'' ''asha'' ''#c'' ''hello'' ''b|a'' 1 1 1 ts)
       [0, 0, 700000000, 700000000, 700000000, 700000000, 700000000, 700000000]"

text \<open>
  Six posts: the users u1 and u2 each post topic A and later topic B, the user u3 posts
  topic C twice. \<open>seqRest\<close> is the same without the posts of u1 and u2, \<open>seqOthers\<close> without
  the posts of u3.
\<close>

definition seqData :: "Post list" where
  "seqData =
     [examplePost ''p1'' ''u1'' [] ''hello'' ''A'' 1 1 1 0,
      examplePost ''p2'' ''u2'' [] ''hello'' ''A'' 1 1 1 5,
      examplePost ''p3'' ''u3'' [] ''hello'' ''C'' 1 1 1 7,
      examplePost ''p4'' ''u2'' [] ''hello'' ''B'' 1 1 1 9,
      examplePost ''p5'' ''u1'' [] ''hello'' ''B'' 1 1 1 10,
      examplePost ''p6'' ''u3'' [] ''hello'' ''C'' 1 1 1 12]"

definition seqRest :: "Post list" where
  "seqRest =
     [examplePost ''p3'' ''u3'' [] ''hello'' ''C'' 1 1 1 7,
      examplePost ''p6'' ''u3'' [] ''hello'' ''C'' 1 1 1 12]"

definition seqOthers :: "Post list" where
  "seqOthers =
     [examplePost ''p1'' ''u1'' [] ''hello'' ''A'' 1 1 1 0,
      examplePost ''p2'' ''u2'' [] ''hello'' ''A'' 1 1 1 5,
      examplePost ''p4'' ''u2'' [] ''hello'' ''B'' 1 1 1 9,
      examplePost ''p5'' ''u1'' [] ''hello'' ''B'' 1 1 1 10]"

text \<open>
  Two users who each post topic A, then topic C, then topic B; and six posts in which u1
  posts the topics X, A, A, B and u2 the topics A, B.
\<close>

definition detourData :: "Post list" where
  "detourData =
     [examplePost ''p1'' ''u1'' [] ''hello'' ''A'' 1 1 1 0,
      examplePost ''p2'' ''u1'' [] ''hello'' ''C'' 1 1 1 1,
      examplePost ''p3'' ''u1'' [] ''hello'' ''B'' 1 1 1 2,
      examplePost ''p4'' ''u2'' [] ''hello'' ''A'' 1 1 1 0,
      examplePost ''p5'' ''u2'' [] ''hello'' ''C'' 1 1 1 1,
      examplePost ''p6'' ''u2'' [] ''hello'' ''B'' 1 1 1 2]"

definition mixedData :: "Post list" where
  "mixedData =
     [examplePost ''p1'' ''u1'' [] ''hello'' ''X'' 1 1 1 0,
      examplePost ''p2'' ''u2'' [] ''hello'' ''A'' 1 1 1 0,
      examplePost ''p3'' ''u1'' [] ''hello'' ''A'' 1 1 1 1,
      examplePost ''p4'' ''u1'' [] ''hello'' ''A'' 1 1 1 2,
      examplePost ''p5'' ''u2'' [] ''hello'' ''B'' 1 1 1 2,
      examplePost ''p6'' ''u1'' [] ''hello'' ''B'' 1 1 1 3]"

section \<open>Invariants and specification-side quantities\<close>

text \<open>
  What holds of every trend of the temporal trend map: the total and every week bucket
  are sums of the members' raw engagement, every member passed the threshold, and no post
  id occurs twice.
\<close>

definition trendOk :: "TrendData \<Rightarrow> bool" where
  "trendOk t \<longleftrightarrow>
     totalEngagement t = sum_list (map rawEngagement (posts t))
     \<and> (\<forall>w. getOr0 (timeSeries t) w
             = sum_list (map rawEngagement (filter (\<lambda>p. weekNumOf p = w) (posts t))))
     \<and> (\<forall>p \<in> set (posts t). 20 \<le> rawEngagement p)
     \<and> distinct (map post_id (posts t))"

definition temporalInv :: "(string \<times> TrendData) list \<Rightarrow> bool" where
  "temporalInv m \<longleftrightarrow> distinct (map fst m) \<and> (\<forall>k t. map_of m k = Some t \<longrightarrow> trendOk t)"



text \<open>Every list that a map holds as a value has only elements with \<open>P\<close>.\<close>

definition allValues :: "('a \<Rightarrow> bool) \<Rightarrow> ('k \<times> 'a list) list \<Rightarrow> bool" where
  "allValues P m \<longleftrightarrow> (\<forall>(k, xs) \<in> set m. \<forall>x \<in> set xs. P x)"



text \<open>
  The count that the sequential miner holds for a transition key once all users are
  processed, \<open>(sequenceCounts.get(seq) || 0)\<close>.
\<close>

definition transitionCount :: "Post list \<Rightarrow> string \<Rightarrow> int" where
  "transitionCount data seq = getOr0 (fst (sequenceCountsOf data)) seq"

text \<open>The keys that one sorted sequence counts, one per consecutive pair of different topics.\<close>

fun transKeys :: "(string \<times> int) list \<Rightarrow> string list" where
  "transKeys (a # b # rest) =
     (if fst a \<noteq> fst b then [fst a @ ''|'' @ fst b] else []) @ transKeys (b # rest)"
| "transKeys [a] = []"
| "transKeys [] = []"






text \<open>
  The sequential miner by authors: a post counts if it has a user and a topic, the authors
  are the users of such posts, and the sequence of an author is the topics and times of
  the author's posts, sorted by time as \<open>sequence.sort\<close> does. \<open>contribution\<close> is the count
  that the loop over one sorted sequence leaves for a key, started on empty maps.
\<close>

definition validPost :: "Post \<Rightarrow> bool" where
  "validPost post \<longleftrightarrow> user post \<noteq> [] \<and> topic post \<noteq> []"

definition authors :: "Post list \<Rightarrow> string set" where
  "authors data = set (map user (filter validPost data))"

definition rawSequence :: "string \<Rightarrow> Post list \<Rightarrow> (string \<times> int) list" where
  "rawSequence u data =
     map (\<lambda>p. (topic p, timestamp p)) (filter (\<lambda>p. user p = u \<and> validPost p) data)"

definition authorSequence :: "string \<Rightarrow> Post list \<Rightarrow> (string \<times> int) list" where
  "authorSequence u data = sort_key snd (rawSequence u data)"

definition contribution :: "(string \<times> int) list \<Rightarrow> string \<Rightarrow> int" where
  "contribution s k = getOr0 (fst (transitions s ([], []))) k"

section \<open>Properties\<close>







subsection \<open>Trend membership\<close>

text \<open>
  C1. No trend's member list holds a post id twice. The dashboard without scores pushes
  a post once for its hashtag and once more for the keyword found in its text, and the
  dashboard with scores pushes it once per repetition of a hashtag: in both a single
  post makes a trend of two members with one id.
\<close>

theorem extractTrends_duplicate_member:
  "map posts (extractTrends_basic [cricketPost]) = [[cricketPost, cricketPost]]
   \<and> map posts (extractTrends_scored now [twiceTaggedPost]) = [[twiceTaggedPost, twiceTaggedPost]]"
proof
  show "map posts (extractTrends_basic [cricketPost]) = [[cricketPost, cricketPost]]"
    by code_simp
  have "filter (\<lambda>trend. length (posts trend) \<ge> 2)
          (map snd (fold trendStep_scored [twiceTaggedPost] [])) = [iplTrend]"
    by code_simp
  then show "map posts (extractTrends_scored now [twiceTaggedPost])
          = [[twiceTaggedPost, twiceTaggedPost]]"
    by (simp add: extractTrends_scored_def iplTrend_def)
qed

subsection \<open>The temporal trend map\<close>

lemma getOr0_update:
  "getOr0 (AList.update k v m) k' = (if k' = k then v else getOr0 m k')"
  by (simp add: getOr0_def update_conv')

lemma trendOk_new:
  "trendOk \<lparr>keyword = key, posts = [], totalEngagement = 0, timeSeries = []\<rparr>"
  by (simp add: trendOk_def getOr0_def)

lemma trendOk_push:
  assumes "trendOk t" "20 \<le> rawEngagement post"
    and "find (\<lambda>p. post_id p = post_id post) (posts t) = None"
  shows "trendOk (t\<lparr>posts := posts t @ [post],
                    totalEngagement := totalEngagement t + rawEngagement post,
                    timeSeries := AList.update (weekNumOf post)
                      (getOr0 (timeSeries t) (weekNumOf post) + rawEngagement post) (timeSeries t)\<rparr>)"
  using assms by (auto simp: trendOk_def getOr0_update find_None_iff)

lemma temporalInv_update:
  "temporalInv m \<Longrightarrow> trendOk t \<Longrightarrow> temporalInv (AList.update k t m)"
  by (auto simp: temporalInv_def distinct_update update_conv')

lemma addTemporal_inv:
  assumes "temporalInv m" "20 \<le> rawEngagement post"
  shows "temporalInv (addTemporal key post m)"
proof -
  let ?m = "if map_of m key = None
            then AList.update key \<lparr>keyword = key, posts = [], totalEngagement = 0, timeSeries = []\<rparr> m
            else m"
  have inv: "temporalInv ?m"
    using assms(1) by (simp add: temporalInv_update trendOk_new)
  show ?thesis
  proof (cases "map_of ?m key")
    case None
    then show ?thesis using inv by (simp add: addTemporal_def Let_def)
  next
    case (Some t)
    then have "trendOk t" using inv by (auto simp: temporalInv_def)
    have "temporalInv (AList.update key u ?m)" if "trendOk u" for u
      using inv that by (rule temporalInv_update)
    then show ?thesis
      using Some inv assms(2) \<open>trendOk t\<close> unfolding addTemporal_def Let_def
      by (simp add: trendOk_push)
  qed
qed

lemma fold_inv:
  assumes "P m" "\<And>x m. x \<in> set xs \<Longrightarrow> P m \<Longrightarrow> P (f x m)"
  shows "P (fold f xs m)"
  using assms by (induction xs arbitrary: m) auto

lemma temporalStep_inv:
  assumes "temporalInv m"
  shows "temporalInv (temporalStep post m)"
proof (cases "rawEngagement post < 20")
  case True
  then show ?thesis using assms by (simp add: temporalStep_def)
next
  case False
  then have thr: "20 \<le> rawEngagement post" by simp
  let ?tagStep = "\<lambda>tag m. if tag \<noteq> [] \<and> length tag > 2 then addTemporal tag post m else m"
  let ?m1 = "if hashtags post \<noteq> [] then fold ?tagStep (tagsOf post) m else m"
  have "temporalInv (fold ?tagStep (tagsOf post) m)"
    by (rule fold_inv [where P = temporalInv, OF assms]) (simp add: addTemporal_inv thr)
  then have m1: "temporalInv ?m1" using assms by simp
  have "temporalInv
          (fold (\<lambda>keyword m. if includesStr (toLowerCase (content post)) keyword
                                then addTemporal keyword post m else m)
             contentKeywords_temporal ?m1)"
    by (rule fold_inv [where P = temporalInv, OF m1]) (simp add: addTemporal_inv thr)
  then show ?thesis using False by (simp add: temporalStep_def Let_def)
qed

lemma temporalTrendMap_inv: "temporalInv (temporalTrendMap data)"
  unfolding temporalTrendMap_def
proof (rule fold_inv [where P = temporalInv])
  show "temporalInv []" by (simp add: temporalInv_def)
qed (rule temporalStep_inv)

text \<open>
  The temporal aggregator, unlike the two dashboards, admits a post id once per trend.
\<close>

lemma temporal_members_distinct:
  assumes "(key, t) \<in> set (temporalTrendMap data)"
  shows "distinct (map post_id (posts t))"
proof -
  have "map_of (temporalTrendMap data) key = Some t"
    using assms temporalTrendMap_inv [of data] by (simp add: temporalInv_def)
  then have "trendOk t"
    using temporalTrendMap_inv [of data] by (auto simp: temporalInv_def)
  then show ?thesis by (simp add: trendOk_def)
qed


text \<open>
  In the finished trend map every member of a trend has raw engagement of at least the
  threshold 20, the trend's total engagement is the sum of the raw engagement of its
  members, and the bucket of every week is the sum of the raw engagement of the members
  of that week.
\<close>

lemma temporal_totals_raw:
  assumes "(key, t) \<in> set (temporalTrendMap data)"
  shows "totalEngagement t = sum_list (map rawEngagement (posts t))
     \<and> (\<forall>w. getOr0 (timeSeries t) w
             = sum_list (map rawEngagement (filter (\<lambda>p. weekNumOf p = w) (posts t))))
     \<and> (\<forall>p \<in> set (posts t). 20 \<le> rawEngagement p)"
proof -
  have "map_of (temporalTrendMap data) key = Some t"
    using assms temporalTrendMap_inv [of data] by (simp add: temporalInv_def)
  then have "trendOk t"
    using temporalTrendMap_inv [of data] by (auto simp: temporalInv_def)
  then show ?thesis by (simp add: trendOk_def)
qed

lemma temporal_totals_raw_example:
  "(''abc'', sharedTrend) \<in> set (temporalTrendMap [sharedPost])
   \<and> totalEngagement sharedTrend = rawEngagement sharedPost
   \<and> getOr0 (timeSeries sharedTrend) (weekNumOf sharedPost) = rawEngagement sharedPost
   \<and> 20 \<le> rawEngagement sharedPost"
proof -
  have mem: "(''abc'', sharedTrend) \<in> set (temporalTrendMap [sharedPost])"
    by code_simp
  have posts: "posts sharedTrend = [sharedPost]"
    by (simp add: sharedTrend_def)
  have week: "filter (\<lambda>p. weekNumOf p = weekNumOf sharedPost) [sharedPost] = [sharedPost]"
    by simp
  have "20 \<le> rawEngagement sharedPost"
    by code_simp
  moreover note temporal_totals_raw [OF mem, unfolded posts]
  ultimately show ?thesis
    using mem by (simp add: week)
qed

subsection \<open>What the step for one post adds\<close>



















subsection \<open>The engagement score\<close>






subsection \<open>Maps of lists\<close>

lemma set_update_cases:
  "(k', v') \<in> set (AList.update k v m) \<Longrightarrow> (k', v') = (k, v) \<or> (k', v') \<in> set m"
  by (induction m) (auto split: if_splits)

lemma set_byCountDesc [simp]: "set (byCountDesc xs) = set xs"
  by (simp add: byCountDesc_def)

lemma allValues_Nil [simp]: "allValues P []"
  by (simp add: allValues_def)

lemma allValues_push:
  assumes "allValues P m" "P x"
  shows "allValues P (AList.update k ((case map_of m k of None \<Rightarrow> [] | Some xs \<Rightarrow> xs) @ [x]) m)"
proof -
  have old: "\<forall>y \<in> set (case map_of m k of None \<Rightarrow> [] | Some xs \<Rightarrow> xs). P y"
  proof (cases "map_of m k")
    case (Some xs)
    then have "(k, xs) \<in> set m" by (rule map_of_SomeD)
    then show ?thesis using assms(1) Some by (auto simp: allValues_def)
  qed simp
  show ?thesis
    unfolding allValues_def
  proof (intro ballI, clarify)
    fix k' xs x'
    assume "(k', xs) \<in> set (AList.update k ((case map_of m k of None \<Rightarrow> [] | Some xs \<Rightarrow> xs) @ [x]) m)"
      and x': "x' \<in> set xs"
    then consider "xs = (case map_of m k of None \<Rightarrow> [] | Some xs \<Rightarrow> xs) @ [x]" | "(k', xs) \<in> set m"
      using set_update_cases by fastforce
    then show "P x'"
    proof cases
      case 1
      then show ?thesis using old x' assms(2) by auto
    next
      case 2
      then show ?thesis using assms(1) x' by (auto simp: allValues_def)
    qed
  qed
qed

subsection \<open>What every mined rule, itemset and pattern satisfies\<close>

lemma rulesByTopicOf_all:
  assumes "\<And>k pd n. (k, pd) \<in> set (itemPairsOf data) \<Longrightarrow> 8 \<le> count pd
             \<Longrightarrow> P (fst (buildRule data (rnd n) k pd))"
  shows "allValues P (rulesByTopicOf rnd data)"
proof -
  have "allValues P (fst (fold (ruleStep data rnd) (itemPairsOf data) ([], 0)))"
  proof (rule fold_inv [where P = "\<lambda>s. allValues P (fst s)"])
    show "allValues P (fst ([], 0::nat))" by simp
  next
    fix e :: "string \<times> PairData" and s :: "(string \<times> AssociationRule list) list \<times> nat"
    assume e: "e \<in> set (itemPairsOf data)" and s: "allValues P (fst s)"
    obtain k pd where [simp]: "e = (k, pd)" by (cases e)
    obtain m n where [simp]: "s = (m, n)" by (cases s)
    show "allValues P (fst (ruleStep data rnd e s))"
    proof (cases "count pd < 8")
      case True
      then show ?thesis using s by (simp add: ruleStep_def)
    next
      case False
      then have "P (fst (buildRule data (rnd n) k pd))"
        using assms e by simp
      moreover obtain r c where "buildRule data (rnd n) k pd = (r, c)"
        by (cases "buildRule data (rnd n) k pd")
      ultimately show ?thesis
        using False s by (simp add: ruleStep_def Let_def allValues_push)
    qed
  qed
  then show ?thesis by (simp add: rulesByTopicOf_def)
qed

lemma firstPass_all:
  assumes "allValues P m"
  shows "case fold firstPassStep m ([], [], []) of
           (diverse, processed, m') \<Rightarrow> (\<forall>r \<in> set diverse. P r) \<and> allValues P m'"
proof (rule fold_inv [where P = "\<lambda>s. case s of (diverse, processed, m') \<Rightarrow>
                                     (\<forall>r \<in> set diverse. P r) \<and> allValues P m'"])
  show "case ([], [], []) of (diverse, processed, m') \<Rightarrow> (\<forall>r \<in> set diverse. P r) \<and> allValues P m'"
    by simp
next
  fix e :: "string \<times> AssociationRule list"
    and s :: "AssociationRule list \<times> string list \<times> (string \<times> AssociationRule list) list"
  assume e: "e \<in> set m"
    and s: "case s of (diverse, processed, m') \<Rightarrow> (\<forall>r \<in> set diverse. P r) \<and> allValues P m'"
  obtain t rs where [simp]: "e = (t, rs)" by (cases e)
  obtain d p m' where [simp]: "s = (d, p, m')" by (cases s)
  have rs: "\<forall>r \<in> set rs. P r"
    using assms e by (auto simp: allValues_def)
  then have "\<forall>r \<in> set (take 1 (byCountDesc rs)). P r"
    by (auto dest!: in_set_takeD)
  then show "case firstPassStep e s of (diverse, processed, m') \<Rightarrow>
               (\<forall>r \<in> set diverse. P r) \<and> allValues P m'"
    using s rs by (auto simp: firstPassStep_def allValues_def)
qed

lemma secondPass_all:
  assumes "\<forall>r \<in> set d. P r" "\<forall>r \<in> set rs. P r"
  shows "\<forall>r \<in> set (fold secondPassStep rs d). P r"
proof (rule fold_inv [where P = "\<lambda>d. \<forall>r \<in> set d. P r"])
  show "\<forall>r \<in> set d. P r" by (rule assms(1))
next
  fix x d' assume "x \<in> set rs" "\<forall>r \<in> set d'. P r"
  then show "\<forall>r \<in> set (secondPassStep x d'). P r"
    using assms(2) by (auto simp: secondPassStep_def)
qed

lemma diversify_all:
  assumes "allValues P m"
  shows "\<forall>r \<in> set (diversify m). P r"
proof -
  obtain d p m' where f: "fold firstPassStep m ([], [], []) = (d, p, m')"
    by (cases "fold firstPassStep m ([], [], [])")
  have d: "\<forall>r \<in> set d. P r" and m': "allValues P m'"
    using firstPass_all [OF assms] by (simp_all add: f)
  have "\<forall>r \<in> set (byCountDesc (concat (map snd m'))). P r"
    using m' by (auto simp: allValues_def)
  then have "\<forall>r \<in> set (fold secondPassStep (byCountDesc (concat (map snd m'))) d). P r"
    using d by (intro secondPass_all)
  then show ?thesis
    by (auto simp: diversify_def f dest!: in_set_takeD)
qed

lemma mineAssociationRules_all:
  assumes "\<And>k pd n. (k, pd) \<in> set (itemPairsOf data) \<Longrightarrow> 8 \<le> count pd
             \<Longrightarrow> P (fst (buildRule data (rnd n) k pd))"
  shows "\<forall>r \<in> set (mineAssociationRules rnd data). P r"
  unfolding mineAssociationRules_def
  by (rule diversify_all, rule rulesByTopicOf_all, rule assms)

lemma buildRule_count: "occurrence_count (fst (buildRule data r k pd)) = count pd"
  by (simp add: buildRule_def Let_def split: prod.splits)

lemma rules_count: "\<forall>r \<in> set (mineAssociationRules rnd data). 8 \<le> occurrence_count r"
  by (rule mineAssociationRules_all) (simp add: buildRule_count)

lemma itemsets_count: "\<forall>s \<in> set (mineFrequentItemsets data). 8 \<le> occurrence_count s"
proof -
  let ?P = "\<lambda>s::FrequentItemset. 8 \<le> occurrence_count s"
  have byTopic: "allValues ?P (fold (itemsetEntryStep (length data)) (itemsetCountsOf data) [])"
  proof (rule fold_inv [where P = "allValues ?P"])
    fix e :: "string \<times> ItemsetData" and m :: "(string \<times> FrequentItemset list) list"
    assume "allValues ?P m"
    then show "allValues ?P (itemsetEntryStep (length data) e m)"
      by (cases e) (simp add: itemsetEntryStep_def Let_def allValues_push)
  qed simp
  have "\<forall>s \<in> set (fold (\<lambda>entry diverse. diverse @ take 2 (byCountDesc (snd entry))) m []). ?P s"
    if "allValues ?P m" for m :: "(string \<times> FrequentItemset list) list"
  proof (rule fold_inv [where P = "\<lambda>d. \<forall>s \<in> set d. ?P s"])
    fix e :: "string \<times> FrequentItemset list" and d :: "FrequentItemset list"
    assume "e \<in> set m" "\<forall>s \<in> set d. ?P s"
    then show "\<forall>s \<in> set (d @ take 2 (byCountDesc (snd e))). ?P s"
      using that by (cases e) (auto simp: allValues_def dest!: in_set_takeD)
  qed simp
  from this [OF byTopic] show ?thesis
    by (auto simp: mineFrequentItemsets_def Let_def dest!: in_set_takeD)
qed

lemma patterns_count: "\<forall>q \<in> set (mineSequentialPatterns data). 3 \<le> occurrence_count q"
proof -
  let ?P = "\<lambda>q::SequentialPattern. 3 \<le> occurrence_count q"
  have "\<forall>q \<in> set (fold (patternStep u tm) cs []). ?P q" for u tm cs
  proof (rule fold_inv [where P = "\<lambda>ps. \<forall>q \<in> set ps. ?P q"])
    fix e :: "string \<times> int" and ps :: "SequentialPattern list"
    assume "\<forall>q \<in> set ps. ?P q"
    then show "\<forall>q \<in> set (patternStep u tm e ps). ?P q"
      by (cases e) (auto simp: patternStep_def Let_def split: prod.splits)
  qed simp
  then show ?thesis
    by (auto simp: mineSequentialPatterns_def Let_def split: prod.splits dest!: in_set_takeD)
qed

subsection \<open>Growth rates\<close>

lemma jsRound_le: "x \<le> real_of_int k \<Longrightarrow> jsRound x \<le> k"
  unfolding jsRound_def by linarith

lemma jsRound_ge: "real_of_int k \<le> x \<Longrightarrow> k \<le> jsRound x"
  unfolding jsRound_def by linarith

lemma growthRatesOf_bounds: "g \<in> set (growthRatesOf vs) \<Longrightarrow> -200 \<le> g \<and> g \<le> 200"
  by (induction vs rule: growthRatesOf.induct) auto

lemma patternOf_bounds:
  assumes "patternOf t = Some p" "g \<in> set (weeklyGrowth p)"
  shows "-200 \<le> g \<and> g \<le> 200"
proof -
  obtain vs where "weeklyGrowth p = map jsRound (growthRatesOf vs)"
    using assms(1)
    by (auto simp: patternOf_def Let_def split: if_splits option.splits)
  then obtain x where "x \<in> set (growthRatesOf vs)" "g = jsRound x"
    using assms(2) by auto
  then show ?thesis
    using growthRatesOf_bounds [of x vs] jsRound_le [of x 200] jsRound_ge [of "-200" x] by simp
qed

lemma temporal_bounds:
  assumes "p \<in> set (processTemporalPatterns data)" "g \<in> set (weeklyGrowth p)"
  shows "-200 \<le> g \<and> g \<le> 200"
proof -
  obtain k t where "patternOf t = Some p"
    using assms(1) by (auto simp: processTemporalPatterns_def map_filter_def)
  then show ?thesis using assms(2) by (rule patternOf_bounds)
qed

lemma growthRateOf_bounds:
  assumes "0 \<le> r" "r < 1"
  shows "-50 \<le> fst (growthRateOf r ps) \<and> fst (growthRateOf r ps) \<le> 100"
proof -
  define tg where "tg = fold (\<lambda>post tg. AList.update (weekNumOf post)
                                 (getOr0 tg (weekNumOf post) + 1) tg) ps []"
  define weeks where "weeks = sort (map fst tg)"
  define f where "f = getOr0 tg (weeks ! 0)"
  define l where "l = getOr0 tg (weeks ! (length weeks - 1))"
  define m where "m = getOr0 tg (weeks ! (length weeks div 2))"
  define raw where "raw = (real_of_int (l - f) / real_of_int f) * 100"
  have small: "jsRound x \<le> 100 \<and> - 50 \<le> jsRound x" if "0 \<le> x" "x \<le> 30" for x :: real
    using that jsRound_le [of x 100] jsRound_ge [of "- 50" x] by simp
  have unfold: "growthRateOf r ps =
     (if length ps \<ge> 2 then
        if length weeks \<ge> 2 then
          if f > 0 then
            if raw > 0 then
              if m > f \<and> l > m then (min 100 (jsRound (min 100 (50 + raw / 4)) + 15), False)
              else (jsRound (min 100 (50 + raw / 4)), False)
            else (jsRound (max (-50) (raw / 2)), False)
          else if l > 0 then (min 75 (30 + l * 5), False)
          else (0, False)
        else (jsRound (if length ps > 5 then 10 + r * 20 else (10 + r * 20) * (1 / 2)), True)
      else (jsRound (r * 15), True))"
    unfolding growthRateOf_def Let_def tg_def weeks_def f_def l_def m_def raw_def by simp
  have pos: "- 50 \<le> jsRound (min 100 (50 + raw / 4)) \<and> jsRound (min 100 (50 + raw / 4)) \<le> 100"
    if "raw > 0"
    using that jsRound_le [of "min 100 (50 + raw / 4)" 100]
      jsRound_ge [of "- 50" "min 100 (50 + raw / 4)"] by simp
  have neg: "- 50 \<le> jsRound (max (- 50) (raw / 2)) \<and> jsRound (max (- 50) (raw / 2)) \<le> 100"
    if "\<not> raw > 0"
    using that jsRound_le [of "max (- 50) (raw / 2)" 100]
      jsRound_ge [of "- 50" "max (- 50) (raw / 2)"] by simp
  have r1: "- 50 \<le> jsRound (10 + r * 20) \<and> jsRound (10 + r * 20) \<le> 100"
    using small [of "10 + r * 20"] assms by simp
  have r2: "- 50 \<le> jsRound ((10 + r * 20) * (1 / 2)) \<and> jsRound ((10 + r * 20) * (1 / 2)) \<le> 100"
    using small [of "(10 + r * 20) * (1 / 2)"] assms by simp
  have r3: "- 50 \<le> jsRound (r * 15) \<and> jsRound (r * 15) \<le> 100"
    using small [of "r * 15"] assms by simp
  show ?thesis
  proof (cases "length ps \<ge> 2")
    case False
    then show ?thesis using r3 by (simp add: unfold)
  next
    case A: True
    show ?thesis
    proof (cases "length weeks \<ge> 2")
      case False
      then show ?thesis using A r1 r2 by (simp add: unfold)
    next
      case B: True
      show ?thesis
      proof (cases "f > 0")
        case False
        moreover have "min 75 (30 + l * 5) \<le> 100" by linarith
        ultimately show ?thesis using A B by (simp add: unfold)
      next
        case C: True
        show ?thesis
        proof (cases "raw > 0")
          case False
          then show ?thesis using A B C neg by (simp add: unfold)
        next
          case True
          then show ?thesis using A B C pos by (simp add: unfold)
        qed
      qed
    qed
  qed
qed

lemma buildRule_growth:
  "growth_rate (fst (buildRule data r k pd)) = fst (growthRateOf r (sort_key timestamp (posts_kept pd)))"
  by (simp add: buildRule_def Let_def split: prod.splits)

lemma rules_growth:
  assumes "\<forall>n. 0 \<le> rnd n \<and> rnd n < 1"
  shows "\<forall>r \<in> set (mineAssociationRules rnd data). -200 \<le> growth_rate r \<and> growth_rate r \<le> 200"
proof (rule mineAssociationRules_all)
  fix k pd n
  show "- 200 \<le> growth_rate (fst (buildRule data (rnd n) k pd))
        \<and> growth_rate (fst (buildRule data (rnd n) k pd)) \<le> 200"
    using growthRateOf_bounds [of "rnd n" "sort_key timestamp (posts_kept pd)"] assms
    by (simp add: buildRule_growth)
qed

text \<open>
  C8. Every association rule and every frequent itemset of the output has an occurrence
  count of at least 8, and every sequential pattern one of at least 3.
\<close>

theorem occurrence_thresholds:
  "(\<forall>r \<in> set (mineAssociationRules rnd data). 8 \<le> occurrence_count r)
   \<and> (\<forall>s \<in> set (mineFrequentItemsets data). 8 \<le> occurrence_count s)
   \<and> (\<forall>q \<in> set (mineSequentialPatterns data). 3 \<le> occurrence_count q)"
  using rules_count itemsets_count patterns_count by blast

theorem occurrence_thresholds_witness:
  "mineAssociationRules (constRandom 0) miningData \<noteq> []
   \<and> 8 \<le> occurrence_count (hd (mineAssociationRules (constRandom 0) miningData))
   \<and> mineFrequentItemsets miningData \<noteq> []
   \<and> 8 \<le> occurrence_count (hd (mineFrequentItemsets miningData))
   \<and> mineSequentialPatterns miningData \<noteq> []
   \<and> 3 \<le> occurrence_count (hd (mineSequentialPatterns miningData))"
proof -
  have "length (mineAssociationRules (constRandom 0) miningData) = 1
      \<and> length (mineFrequentItemsets miningData) = 1
      \<and> length (mineSequentialPatterns miningData) = 1"
    by code_simp
  then have ne: "mineAssociationRules (constRandom 0) miningData \<noteq> []"
    "mineFrequentItemsets miningData \<noteq> []" "mineSequentialPatterns miningData \<noteq> []"
    by auto
  then have "hd (mineAssociationRules (constRandom 0) miningData)
               \<in> set (mineAssociationRules (constRandom 0) miningData)"
    "hd (mineFrequentItemsets miningData) \<in> set (mineFrequentItemsets miningData)"
    "hd (mineSequentialPatterns miningData) \<in> set (mineSequentialPatterns miningData)"
    by simp_all
  then show ?thesis
    using ne occurrence_thresholds [of "constRandom 0" miningData] by blast
qed

text \<open>
  C9. Every per-step temporal growth rate lies within [-200, 200], also as it is reported
  rounded in a temporal pattern, and so does the growth rate of every association rule,
  \<open>Math.random()\<close> returning values from 0 up to but not including 1.
\<close>

theorem growth_rates_clamped:
  "(\<forall>g \<in> set (growthRatesOf values). -200 \<le> g \<and> g \<le> 200)
   \<and> (\<forall>p \<in> set (processTemporalPatterns data).
         \<forall>g \<in> set (weeklyGrowth p). -200 \<le> g \<and> g \<le> 200)
   \<and> ((\<forall>n. 0 \<le> rnd n \<and> rnd n < 1) \<longrightarrow>
        (\<forall>r \<in> set (mineAssociationRules rnd data').
           -200 \<le> growth_rate r \<and> growth_rate r \<le> 200))"
  using growthRatesOf_bounds temporal_bounds rules_growth by blast

theorem growth_rates_clamped_witness:
  "growthRatesOf [20, 40] = [100] \<and> -200 \<le> (100::real) \<and> (100::real) \<le> 200
   \<and> map weeklyGrowth (processTemporalPatterns twoWeekData) = [[100]]
   \<and> map growth_rate (mineAssociationRules (constRandom 0) miningData) = [5]
   \<and> -200 \<le> (5::int) \<and> (5::int) \<le> 200"
proof -
  have a: "growthRatesOf [20, 40] = [100]"
    by code_simp
  have b: "map weeklyGrowth (processTemporalPatterns twoWeekData) = [[100]]"
    by code_simp
  have c: "map growth_rate (mineAssociationRules (constRandom 0) miningData) = [5]"
    by code_simp
  note inst = growth_rates_clamped [of "[20, 40]" twoWeekData "constRandom 0" miningData]
  have "\<forall>g \<in> set (growthRatesOf [20, 40]). -200 \<le> g \<and> g \<le> 200"
    using inst by blast
  then have "-200 \<le> (100::real) \<and> (100::real) \<le> 200"
    by (simp add: a)
  moreover have "\<forall>r \<in> set (mineAssociationRules (constRandom 0) miningData).
                   -200 \<le> growth_rate r \<and> growth_rate r \<le> 200"
    using inst by (simp add: constRandom_def)
  then have "\<forall>g \<in> set (map growth_rate (mineAssociationRules (constRandom 0) miningData)).
               -200 \<le> g \<and> g \<le> 200"
    by simp
  then have "-200 \<le> (5::int) \<and> (5::int) \<le> 200"
    unfolding c by simp
  ultimately show ?thesis
    using a b c by simp
qed

subsection \<open>A corpus without hashtags\<close>

lemma diversify_Nil: "diversify [] = []"
  by (simp add: diversify_def byCountDesc_def)

lemma itemsetStep_no_tags:
  "extractHashtags (hashtags p) = [] \<Longrightarrow> itemsetStep p m = m"
  by (simp add: itemsetStep_def setAdd_def Let_def)

lemma itemsetCountsOf_no_tags:
  assumes "\<forall>p \<in> set data. extractHashtags (hashtags p) = []"
  shows "itemsetCountsOf data = []"
  unfolding itemsetCountsOf_def
  by (rule fold_inv [where P = "\<lambda>m. m = []"]) (simp_all add: itemsetStep_no_tags assms)

lemma pairStep_single_item:
  "extractHashtags (hashtags p) = [] \<Longrightarrow> extractKeywords (content p) = [] \<Longrightarrow> pairStep p m = m"
  by (simp add: pairStep_def itemsOf_def setAdd_def)

lemma itemPairsOf_single_item:
  assumes "\<forall>p \<in> set data. extractHashtags (hashtags p) = [] \<and> extractKeywords (content p) = []"
  shows "itemPairsOf data = []"
  unfolding itemPairsOf_def
  by (rule fold_inv [where P = "\<lambda>m. m = []"]) (simp_all add: pairStep_single_item assms)

text \<open>
  C5, amended. In a corpus whose posts share one topic and have no hashtags the itemset
  miner returns no itemset; the association miner returns no rule if, beyond that, no
  post's text holds a capitalized word, from which \<open>extractKeywords\<close> would make an item.
\<close>

theorem no_hashtags_no_itemsets:
  assumes "\<forall>p \<in> set data. topic p = t \<and> extractHashtags (hashtags p) = []"
  shows "mineFrequentItemsets data = []
     \<and> ((\<forall>p \<in> set data. extractKeywords (content p) = []) \<longrightarrow> mineAssociationRules rnd data = [])"
proof
  have "itemsetCountsOf data = []"
    using assms by (intro itemsetCountsOf_no_tags) simp
  then show "mineFrequentItemsets data = []"
    by (simp add: mineFrequentItemsets_def byCountDesc_def)
  show "(\<forall>p \<in> set data. extractKeywords (content p) = []) \<longrightarrow> mineAssociationRules rnd data = []"
  proof
    assume "\<forall>p \<in> set data. extractKeywords (content p) = []"
    then have "itemPairsOf data = []"
      using assms by (intro itemPairsOf_single_item) simp
    then show "mineAssociationRules rnd data = []"
      by (simp add: mineAssociationRules_def rulesByTopicOf_def diversify_Nil)
  qed
qed

text \<open>
  C5, as stated, fails: eight posts of the topic Gaming without hashtags, each with the
  text \<open>Hello\<close>, give the rule from Gaming to Hello.
\<close>

theorem no_hashtags_counterexample:
  "map topic capsData = replicate 8 ''Gaming''
   \<and> map hashtags capsData = replicate 8 []
   \<and> map rule (mineAssociationRules (constRandom 0) capsData)
       = [''When discussing Gaming, users often mention Hello'']"
  by code_simp

theorem no_hashtags_no_itemsets_witness:
  "map topic plainData = replicate 8 ''Gaming''
   \<and> map hashtags plainData = replicate 8 []
   \<and> mineFrequentItemsets plainData = []
   \<and> mineAssociationRules (constRandom 0) plainData = []"
proof -
  have ev: "map topic plainData = replicate 8 ''Gaming''" "map hashtags plainData = replicate 8 []"
    "map (\<lambda>p. extractHashtags (hashtags p)) plainData = replicate 8 []"
    "map (\<lambda>p. extractKeywords (content p)) plainData = replicate 8 []"
    by code_simp+
  have "\<forall>p \<in> set plainData. topic p = ''Gaming''"
    using ev(1) by (metis (no_types, lifting) in_set_replicate image_eqI list.set_map)
  moreover have "\<forall>p \<in> set plainData. extractHashtags (hashtags p) = []"
    using ev(3) by (metis (no_types, lifting) in_set_replicate image_eqI list.set_map)
  moreover have "\<forall>p \<in> set plainData. extractKeywords (content p) = []"
    using ev(4) by (metis (no_types, lifting) in_set_replicate image_eqI list.set_map)
  ultimately show ?thesis
    using no_hashtags_no_itemsets [of plainData "''Gaming''" "constRandom 0"] ev(1,2) by simp
qed

subsection \<open>Lexicographic direction\<close>

text \<open>
  C10. The antecedent of a rule is lexicographically at most its consequent. For eight
  posts of the topic \<open>b|a\<close> under the hashtag \<open>#c\<close> the key of the sorted pair is \<open>b|a|c\<close>,
  its split at the bar gives \<open>b\<close> and \<open>a\<close>, and the rule leads from \<open>b\<close> to \<open>a\<close>.
\<close>

theorem bar_in_topic_direction:
  "map antecedent (mineAssociationRules (constRandom 0) barData) = [[''b'']]
   \<and> map consequent (mineAssociationRules (constRandom 0) barData) = [[''a'']]
   \<and> \<not> (''b'' \<le> ''a'')"
  by code_simp

subsection \<open>Two runs\<close>


subsection \<open>Two runs agree but for the growth rate\<close>


























subsection \<open>Transition counts\<close>

lemma transitions_count:
  "getOr0 (fst (transitions s (c, t))) k = getOr0 c k + int (count_list (transKeys s) k)"
proof (induction s arbitrary: c t rule: transKeys.induct)
  case (1 a b rest)
  show ?case
    by (simp add: "1.IH" Let_def getOr0_update)
qed simp_all

lemma transitions_fold_count:
  "getOr0 (fst (fold (\<lambda>entry state. transitions (sort_key snd (snd entry)) state) es st)) k
     = getOr0 (fst st) k
       + (\<Sum>e\<leftarrow>es. int (count_list (transKeys (sort_key snd (snd e))) k))"
proof (induction es arbitrary: st)
  case Nil
  then show ?case by simp
next
  case (Cons e es)
  obtain c t where st: "st = (c, t)" by (cases st)
  show ?case
    using transitions_count [of "sort_key snd (snd e)" c t k]
    by (simp add: Cons.IH st)
qed

lemma transitionCount_sum:
  "transitionCount data k
     = (\<Sum>e\<leftarrow>userSequencesOf data. int (count_list (transKeys (sort_key snd (snd e))) k))"
proof -
  have "getOr0 ([] :: (string \<times> int) list) k = 0"
    by (simp add: getOr0_def)
  then show ?thesis
    using transitions_fold_count [of "userSequencesOf data" "([], [])" k]
    by (simp add: transitionCount_def sequenceCountsOf_def)
qed

lemma map_of_filter_key:
  "map_of (filter (\<lambda>e. Q (fst e)) m) k = (if Q k then map_of m k else None)"
  by (induction m) auto

lemma update_filter_key:
  "filter (\<lambda>e. Q (fst e)) (AList.update k v m)
     = (if Q k then AList.update k v (filter (\<lambda>e. Q (fst e)) m) else filter (\<lambda>e. Q (fst e)) m)"
  by (induction m) auto

lemma sequenceStep_filter:
  "filter (\<lambda>e. Q (fst e)) (sequenceStep p m)
     = (if Q (user p) then sequenceStep p (filter (\<lambda>e. Q (fst e)) m)
        else filter (\<lambda>e. Q (fst e)) m)"
  by (auto simp: sequenceStep_def Let_def map_of_filter_key update_filter_key update_conv'
      split: option.splits)

lemma userSequences_filter_gen:
  "fold sequenceStep (filter (\<lambda>p. Q (user p)) data) (filter (\<lambda>e. Q (fst e)) m)
     = filter (\<lambda>e. Q (fst e)) (fold sequenceStep data m)"
proof (induction data arbitrary: m)
  case Nil
  then show ?case by simp
next
  case (Cons p data)
  show ?case
  proof (cases "Q (user p)")
    case True
    then have "sequenceStep p (filter (\<lambda>e. Q (fst e)) m)
                 = filter (\<lambda>e. Q (fst e)) (sequenceStep p m)"
      by (simp add: sequenceStep_filter)
    then show ?thesis
      using True Cons.IH [of "sequenceStep p m"] by simp
  next
    case False
    then have "filter (\<lambda>e. Q (fst e)) m = filter (\<lambda>e. Q (fst e)) (sequenceStep p m)"
      by (simp add: sequenceStep_filter)
    then show ?thesis
      using False Cons.IH [of "sequenceStep p m"] by simp
  qed
qed

lemma userSequences_filter:
  "userSequencesOf (filter (\<lambda>p. Q (user p)) data)
     = filter (\<lambda>e. Q (fst e)) (userSequencesOf data)"
  using userSequences_filter_gen [of Q data "[]"] by (simp add: userSequencesOf_def)

lemma sum_list_split:
  fixes f :: "'a \<Rightarrow> int"
  shows "(\<Sum>x\<leftarrow>xs. f x) = (\<Sum>x\<leftarrow>filter P xs. f x) + (\<Sum>x\<leftarrow>filter (\<lambda>x. \<not> P x) xs. f x)"
  by (induction xs) auto

text \<open>The count of a key splits into the part of one user and the part of all others.\<close>

lemma transitionCount_split:
  "transitionCount data k
     = transitionCount (filter (\<lambda>p. user p = u) data) k
       + transitionCount (filter (\<lambda>p. user p \<noteq> u) data) k"
  unfolding transitionCount_sum
  using userSequences_filter [of "\<lambda>x. x = u" data] userSequences_filter [of "\<lambda>x. x \<noteq> u" data]
    sum_list_split [of _ "userSequencesOf data" "\<lambda>e. fst e = u"]
  by simp

lemma transitionCount_two_posts:
  assumes "user a = u" "user b = u" "u \<noteq> []" "topic a \<noteq> []" "topic b \<noteq> []"
    and "topic a \<noteq> topic b" "timestamp a < timestamp b"
  shows "transitionCount [a, b] (topic a @ ''|'' @ topic b) = 1"
    and "transitionCount [b, a] (topic a @ ''|'' @ topic b) = 1"
  using assms
  by (simp_all add: transitionCount_def sequenceCountsOf_def userSequencesOf_def
      sequenceStep_def Let_def getOr0_def)


lemma transKeys_one_topic: "\<forall>x \<in> set s. fst x = T \<Longrightarrow> transKeys s = []"
  by (induction s rule: transKeys.induct) auto

lemma sequenceStep_one_topic:
  assumes "\<forall>(u, s) \<in> set m. \<forall>x \<in> set s. fst x = T" "topic p = T"
  shows "\<forall>(u, s) \<in> set (sequenceStep p m). \<forall>x \<in> set s. fst x = T"
proof (cases "user p = [] \<or> topic p = []")
  case True
  then show ?thesis using assms(1) by (simp add: sequenceStep_def)
next
  case False
  let ?m = "if map_of m (user p) = None then AList.update (user p) [] m else m"
  have m': "\<forall>(u, s) \<in> set ?m. \<forall>x \<in> set s. fst x = T"
    using assms(1) by (auto dest!: set_update_cases)
  show ?thesis
  proof (cases "map_of ?m (user p)")
    case None
    then show ?thesis using False m' by (simp add: sequenceStep_def Let_def)
  next
    case (Some s)
    then have "(user p, s) \<in> set ?m" by (rule map_of_SomeD)
    then have s: "\<forall>x \<in> set (s @ [(topic p, timestamp p)]). fst x = T"
      using m' assms(2) by auto
    have res: "sequenceStep p m = AList.update (user p) (s @ [(topic p, timestamp p)]) ?m"
      using False Some by (simp add: sequenceStep_def Let_def)
    have "\<forall>x \<in> set s'. fst x = T"
      if "(u, s') \<in> set (AList.update (user p) (s @ [(topic p, timestamp p)]) ?m)" for u s'
    proof -
      from that consider "s' = s @ [(topic p, timestamp p)]" | "(u, s') \<in> set ?m"
        using set_update_cases by fastforce
      then show ?thesis
      proof cases
        case 1
        then show ?thesis using s by simp
      next
        case 2
        then show ?thesis using m' by blast
      qed
    qed
    then show ?thesis
      unfolding res by blast
  qed
qed

lemma sum_list_zero:
  fixes f :: "'a \<Rightarrow> int"
  shows "\<forall>x \<in> set xs. f x = 0 \<Longrightarrow> (\<Sum>x\<leftarrow>xs. f x) = 0"
  by (induction xs) auto

lemma transitionCount_one_topic:
  assumes "\<forall>p \<in> set data. topic p = T"
  shows "transitionCount data k = 0"
proof -
  have "\<forall>(u, s) \<in> set (userSequencesOf data). \<forall>x \<in> set s. fst x = T"
    unfolding userSequencesOf_def
  proof (rule fold_inv [where P = "\<lambda>m. \<forall>(u, s) \<in> set m. \<forall>x \<in> set s. fst x = T"])
    fix p and m :: "(string \<times> (string \<times> int) list) list"
    assume "p \<in> set data" "\<forall>(u, s) \<in> set m. \<forall>x \<in> set s. fst x = T"
    then show "\<forall>(u, s) \<in> set (sequenceStep p m). \<forall>x \<in> set s. fst x = T"
      using assms by (intro sequenceStep_one_topic) auto
  qed simp
  then have "\<forall>e \<in> set (userSequencesOf data). \<forall>x \<in> set (sort_key snd (snd e)). fst x = T"
    by fastforce
  then have "\<forall>e \<in> set (userSequencesOf data). transKeys (sort_key snd (snd e)) = []"
    using transKeys_one_topic [of _ T] by blast
  then have "(\<Sum>e\<leftarrow>userSequencesOf data. int (count_list (transKeys (sort_key snd (snd e))) k)) = 0"
    by (intro sum_list_zero) simp
  then show ?thesis by (simp add: transitionCount_sum)
qed

text \<open>
  Two special cases. Two distinct authors whose only posts are one of topic A and a later
  one of topic B add exactly 2 to the count of the transition from A to B, and an author
  whose posts all have one topic adds nothing to the count of any transition.
\<close>

lemma transition_contributions:
  "(u1 \<noteq> [] \<and> u2 \<noteq> [] \<and> u1 \<noteq> u2 \<and> A \<noteq> [] \<and> B \<noteq> [] \<and> A \<noteq> B
      \<and> (filter (\<lambda>p. user p = u1) data = [a1, b1] \<or> filter (\<lambda>p. user p = u1) data = [b1, a1])
      \<and> topic a1 = A \<and> topic b1 = B \<and> timestamp a1 < timestamp b1
      \<and> (filter (\<lambda>p. user p = u2) data = [a2, b2] \<or> filter (\<lambda>p. user p = u2) data = [b2, a2])
      \<and> topic a2 = A \<and> topic b2 = B \<and> timestamp a2 < timestamp b2
    \<longrightarrow> transitionCount data (A @ ''|'' @ B)
          = 2 + transitionCount (filter (\<lambda>p. user p \<noteq> u1 \<and> user p \<noteq> u2) data) (A @ ''|'' @ B))
   \<and> ((\<forall>p \<in> set data'. user p = u \<longrightarrow> topic p = T)
    \<longrightarrow> (\<forall>k. transitionCount data' k = transitionCount (filter (\<lambda>p. user p \<noteq> u) data') k))"
proof (intro conjI impI allI)
  assume h: "u1 \<noteq> [] \<and> u2 \<noteq> [] \<and> u1 \<noteq> u2 \<and> A \<noteq> [] \<and> B \<noteq> [] \<and> A \<noteq> B
      \<and> (filter (\<lambda>p. user p = u1) data = [a1, b1] \<or> filter (\<lambda>p. user p = u1) data = [b1, a1])
      \<and> topic a1 = A \<and> topic b1 = B \<and> timestamp a1 < timestamp b1
      \<and> (filter (\<lambda>p. user p = u2) data = [a2, b2] \<or> filter (\<lambda>p. user p = u2) data = [b2, a2])
      \<and> topic a2 = A \<and> topic b2 = B \<and> timestamp a2 < timestamp b2"
  let ?k = "A @ ''|'' @ B"
  let ?d = "filter (\<lambda>p. user p \<noteq> u1) data"
  from h have f1: "filter (\<lambda>p. user p = u1) data = [a1, b1] \<or> filter (\<lambda>p. user p = u1) data = [b1, a1]"
    and f2: "filter (\<lambda>p. user p = u2) data = [a2, b2] \<or> filter (\<lambda>p. user p = u2) data = [b2, a2]"
    by blast+
  have us1: "user a1 = u1" "user b1 = u1"
  proof -
    have "\<forall>x \<in> set (filter (\<lambda>p. user p = u1) data). user x = u1" by simp
    then have "user a1 = u1 \<and> user b1 = u1"
      using f1 by (elim disjE) (simp_all only: list.set insert_iff ball_simps simp_thms)
    then show "user a1 = u1" "user b1 = u1" by simp_all
  qed
  have us2: "user a2 = u2" "user b2 = u2"
  proof -
    have "\<forall>x \<in> set (filter (\<lambda>p. user p = u2) data). user x = u2" by simp
    then have "user a2 = u2 \<and> user b2 = u2"
      using f2 by (elim disjE) (simp_all only: list.set insert_iff ball_simps simp_thms)
    then show "user a2 = u2" "user b2 = u2" by simp_all
  qed
  have one1: "transitionCount (filter (\<lambda>p. user p = u1) data) ?k = 1"
    using f1 transitionCount_two_posts [of a1 u1 b1] us1 h by auto
  have "filter (\<lambda>p. user p = u2) ?d = filter (\<lambda>p. user p = u2) data"
    using h by (auto intro: filter_cong)
  then have one2: "transitionCount (filter (\<lambda>p. user p = u2) ?d) ?k = 1"
    using f2 transitionCount_two_posts [of a2 u2 b2] us2 h by auto
  have rest: "filter (\<lambda>p. user p \<noteq> u2) ?d = filter (\<lambda>p. user p \<noteq> u1 \<and> user p \<noteq> u2) data"
    by simp
  show "transitionCount data ?k
          = 2 + transitionCount (filter (\<lambda>p. user p \<noteq> u1 \<and> user p \<noteq> u2) data) ?k"
    using transitionCount_split [of data ?k u1] transitionCount_split [of ?d ?k u2]
      one1 one2 rest by simp
next
  fix k
  assume "\<forall>p \<in> set data'. user p = u \<longrightarrow> topic p = T"
  then have "transitionCount (filter (\<lambda>p. user p = u) data') k = 0"
    by (intro transitionCount_one_topic [of _ T]) simp
  then show "transitionCount data' k = transitionCount (filter (\<lambda>p. user p \<noteq> u) data') k"
    using transitionCount_split [of data' k u] by simp
qed

lemma transition_contributions_example:
  "transitionCount seqData ''A|B'' = 2 + transitionCount seqRest ''A|B''
   \<and> transitionCount seqData ''A|B'' = 2
   \<and> transitionCount seqData ''A|B'' = transitionCount seqOthers ''A|B''"
proof -
  let ?a1 = "examplePost ''p1'' ''u1'' [] ''hello'' ''A'' 1 1 1 0"
  let ?b1 = "examplePost ''p5'' ''u1'' [] ''hello'' ''B'' 1 1 1 10"
  let ?a2 = "examplePost ''p2'' ''u2'' [] ''hello'' ''A'' 1 1 1 5"
  let ?b2 = "examplePost ''p4'' ''u2'' [] ''hello'' ''B'' 1 1 1 9"
  have f1: "filter (\<lambda>p. user p = ''u1'') seqData = [?a1, ?b1]"
    and f2: "filter (\<lambda>p. user p = ''u2'') seqData = [?a2, ?b2]"
    and rest: "filter (\<lambda>p. user p \<noteq> ''u1'' \<and> user p \<noteq> ''u2'') seqData = seqRest"
    and others: "filter (\<lambda>p. user p \<noteq> ''u3'') seqData = seqOthers"
    by (simp_all add: seqData_def seqRest_def seqOthers_def examplePost_def)
  have facts: "topic ?a1 = ''A''" "topic ?b1 = ''B''" "timestamp ?a1 < timestamp ?b1"
    "topic ?a2 = ''A''" "topic ?b2 = ''B''" "timestamp ?a2 < timestamp ?b2"
    by (simp_all add: examplePost_def)
  have u3: "\<forall>p \<in> set seqData. user p = ''u3'' \<longrightarrow> topic p = ''C''"
    by (simp add: seqData_def examplePost_def)
  note inst = transition_contributions [of "''u1''" "''u2''" "''A''" "''B''" seqData ?a1 ?b1 ?a2 ?b2
      seqData "''u3''" "''C''"]
  have one: "transitionCount seqData (''A'' @ ''|'' @ ''B'')
        = 2 + transitionCount seqRest (''A'' @ ''|'' @ ''B'')"
    using inst f1 f2 facts by (simp add: rest)
  have two: "transitionCount seqData ''A|B'' = transitionCount seqOthers ''A|B''"
    using inst u3 others by simp
  have "transitionCount seqRest ''A|B'' = 0"
    by code_simp
  then show ?thesis using one two by simp
qed

subsection \<open>Transition counts by adjacent pairs\<close>

lemma contribution_count: "contribution s k = int (count_list (transKeys s) k)"
  using transitions_count [of s "[]" "[]" k] by (simp add: contribution_def getOr0_def)

lemma transKeys_append:
  "transKeys (pre @ a # rest) = transKeys (pre @ [a]) @ transKeys (a # rest)"
proof (induction pre rule: transKeys.induct)
  case (1 x y zs)
  then show ?case by simp
next
  case (2 x)
  then show ?case by simp
next
  case 3
  then show ?case by simp
qed

lemma contribution_adjacent:
  "contribution (pre @ a # b # post) k
     = contribution (pre @ [a]) k
       + (if fst a \<noteq> fst b \<and> fst a @ ''|'' @ fst b = k then 1 else 0)
       + contribution (b # post) k"
  unfolding contribution_count
  using transKeys_append [of pre a "b # post"] by simp

lemma sequenceStep_invalid: "\<not> validPost p \<Longrightarrow> sequenceStep p m = m"
  by (auto simp: sequenceStep_def validPost_def)

lemma rawSequence_not_author: "u \<notin> authors data \<Longrightarrow> rawSequence u data = []"
  by (auto simp: authors_def rawSequence_def filter_empty_conv)

lemma userSequencesOf_snoc: "userSequencesOf (xs @ [p]) = sequenceStep p (userSequencesOf xs)"
  by (simp add: userSequencesOf_def)

lemma userSequencesOf_char:
  "distinct (map fst (userSequencesOf data))
   \<and> (\<forall>u. map_of (userSequencesOf data) u
             = (if u \<in> authors data then Some (rawSequence u data) else None))"
proof (induction data rule: rev_induct)
  case Nil
  then show ?case by (simp add: userSequencesOf_def authors_def)
next
  case (snoc p xs)
  let ?m = "userSequencesOf xs"
  show ?case
  proof (cases "validPost p")
    case False
    then have "authors (xs @ [p]) = authors xs" "\<And>u. rawSequence u (xs @ [p]) = rawSequence u xs"
      by (simp_all add: authors_def rawSequence_def)
    then show ?thesis
      using snoc False by (simp add: userSequencesOf_snoc sequenceStep_invalid)
  next
    case True
    let ?s = "rawSequence (user p) xs"
    have old: "(case map_of ?m (user p) of None \<Rightarrow> [] | Some s \<Rightarrow> s) = ?s"
      using snoc by (simp add: rawSequence_not_author)
    have step: "sequenceStep p ?m = AList.update (user p) (?s @ [(topic p, timestamp p)]) ?m"
    proof (cases "map_of ?m (user p)")
      case None
      then show ?thesis
        using True old by (simp add: sequenceStep_def Let_def validPost_def update_conv')
    next
      case (Some s)
      then show ?thesis
        using True old by (simp add: sequenceStep_def Let_def validPost_def)
    qed
    have auth: "authors (xs @ [p]) = insert (user p) (authors xs)"
      using True by (simp add: authors_def)
    have seq: "rawSequence u (xs @ [p])
                 = (if u = user p then ?s @ [(topic p, timestamp p)] else rawSequence u xs)" for u
      using True by (auto simp: rawSequence_def)
    show ?thesis
      using snoc
      by (simp add: userSequencesOf_snoc step distinct_update update_conv' auth seq)
  qed
qed

lemma transitionCount_authors:
  "transitionCount data k = (\<Sum>u \<in> authors data. contribution (authorSequence u data) k)"
proof -
  let ?es = "userSequencesOf data"
  let ?g = "\<lambda>u. contribution (authorSequence u data) k"
  have d: "distinct (map fst ?es)"
    and m: "\<And>u. map_of ?es u = (if u \<in> authors data then Some (rawSequence u data) else None)"
    using userSequencesOf_char [of data] by simp_all
  have entry: "snd e = rawSequence (fst e) data" if "e \<in> set ?es" for e
  proof -
    have "map_of ?es (fst e) = Some (snd e)"
      using that d by simp
    then show ?thesis using m [of "fst e"] by (simp split: if_splits)
  qed
  have keys: "set (map fst ?es) = authors data"
  proof -
    have "set (map fst ?es) = dom (map_of ?es)"
      by (simp add: dom_map_of_conv_image_fst)
    also have "\<dots> = authors data"
      using m by (auto simp: dom_def)
    finally show ?thesis .
  qed
  have "transitionCount data k
          = (\<Sum>e\<leftarrow>?es. int (count_list (transKeys (sort_key snd (snd e))) k))"
    by (rule transitionCount_sum)
  also have "\<dots> = (\<Sum>e\<leftarrow>?es. ?g (fst e))"
    using entry by (intro arg_cong [where f = sum_list] map_cong refl)
      (simp add: contribution_count authorSequence_def)
  also have "\<dots> = (\<Sum>u\<leftarrow>map fst ?es. ?g u)"
    by (simp add: comp_def)
  also have "\<dots> = (\<Sum>u \<in> set (map fst ?es). ?g u)"
    using d by (rule sum_list_distinct_conv_sum_set)
  finally show ?thesis by (simp only: keys)
qed

lemma finite_authors: "finite (authors data)"
  by (simp add: authors_def)

lemma transitionCount_one_author:
  assumes "u \<in> authors data"
  shows "transitionCount data k
           = contribution (authorSequence u data) k
             + (\<Sum>v \<in> authors data - {u}. contribution (authorSequence v data) k)"
  unfolding transitionCount_authors
  using assms finite_authors [of data] by (simp add: sum.remove)

lemma transitionCount_two_authors:
  assumes "u1 \<in> authors data" "u2 \<in> authors data" "u1 \<noteq> u2"
  shows "transitionCount data k
           = contribution (authorSequence u1 data) k + contribution (authorSequence u2 data) k
             + (\<Sum>v \<in> authors data - {u1, u2}. contribution (authorSequence v data) k)"
proof -
  have "u2 \<in> authors data - {u1}" using assms by simp
  then have "(\<Sum>v \<in> authors data - {u1}. contribution (authorSequence v data) k)
               = contribution (authorSequence u2 data) k
                 + (\<Sum>v \<in> authors data - {u1} - {u2}. contribution (authorSequence v data) k)"
    using finite_authors [of data] by (simp add: sum.remove)
  moreover have "authors data - {u1} - {u2} = authors data - {u1, u2}" by auto
  ultimately show ?thesis
    using transitionCount_one_author [OF assms(1), of k] by simp
qed

text \<open>
  C7, amended. The count of a transition key is the sum, over the authors, of what the
  author's posts sorted by time contribute, and in a sorted sequence each pair of adjacent
  posts contributes on its own: one to the key of its two topics if they differ, nothing
  to any key if they are equal. So two distinct authors who each post topic A and, as
  their next post in time, topic B add exactly 2 to the count of A to B beside what the
  rest of their sequences and the other authors add, and an adjacent pair of one topic
  adds nothing to any count. Posts of A and B with another post between them in time are
  not adjacent. Posts without user or topic are skipped.
\<close>

theorem transition_count_by_adjacency:
  "transitionCount data k = (\<Sum>u \<in> authors data. contribution (authorSequence u data) k)
   \<and> contribution (pre @ a # b # post) k
       = contribution (pre @ [a]) k
         + (if fst a \<noteq> fst b \<and> fst a @ ''|'' @ fst b = k then 1 else 0)
         + contribution (b # post) k
   \<and> contribution [a] k = 0
   \<and> contribution [] k = 0
   \<and> (u1 \<in> authors data \<and> u2 \<in> authors data \<and> u1 \<noteq> u2 \<and> A \<noteq> B
        \<and> authorSequence u1 data = pre1 @ (A, t1) # (B, t2) # post1
        \<and> authorSequence u2 data = pre2 @ (A, t3) # (B, t4) # post2
      \<longrightarrow> transitionCount data (A @ ''|'' @ B)
            = 2 + (contribution (pre1 @ [(A, t1)]) (A @ ''|'' @ B)
                   + contribution ((B, t2) # post1) (A @ ''|'' @ B)
                   + contribution (pre2 @ [(A, t3)]) (A @ ''|'' @ B)
                   + contribution ((B, t4) # post2) (A @ ''|'' @ B)
                   + (\<Sum>v \<in> authors data - {u1, u2}.
                        contribution (authorSequence v data) (A @ ''|'' @ B))))
   \<and> (u \<in> authors data \<and> authorSequence u data = pre @ (T, t5) # (T, t6) # post
      \<longrightarrow> transitionCount data k
            = contribution (pre @ [(T, t5)]) k + contribution ((T, t6) # post) k
              + (\<Sum>v \<in> authors data - {u}. contribution (authorSequence v data) k))"
proof (intro conjI impI)
  show "transitionCount data k = (\<Sum>u \<in> authors data. contribution (authorSequence u data) k)"
    by (rule transitionCount_authors)
  show "contribution (pre @ a # b # post) k
       = contribution (pre @ [a]) k
         + (if fst a \<noteq> fst b \<and> fst a @ ''|'' @ fst b = k then 1 else 0)
         + contribution (b # post) k"
    by (rule contribution_adjacent)
  show "contribution [a] k = 0" "contribution [] k = 0"
    by (simp_all add: contribution_def getOr0_def)
next
  assume h: "u1 \<in> authors data \<and> u2 \<in> authors data \<and> u1 \<noteq> u2 \<and> A \<noteq> B
        \<and> authorSequence u1 data = pre1 @ (A, t1) # (B, t2) # post1
        \<and> authorSequence u2 data = pre2 @ (A, t3) # (B, t4) # post2"
  let ?k = "A @ ''|'' @ B"
  have "contribution (authorSequence u1 data) ?k
          = contribution (pre1 @ [(A, t1)]) ?k + 1 + contribution ((B, t2) # post1) ?k"
    using h contribution_adjacent [of pre1 "(A, t1)" "(B, t2)" post1 ?k] by simp
  moreover have "contribution (authorSequence u2 data) ?k
          = contribution (pre2 @ [(A, t3)]) ?k + 1 + contribution ((B, t4) # post2) ?k"
    using h contribution_adjacent [of pre2 "(A, t3)" "(B, t4)" post2 ?k] by simp
  ultimately show "transitionCount data ?k
            = 2 + (contribution (pre1 @ [(A, t1)]) ?k
                   + contribution ((B, t2) # post1) ?k
                   + contribution (pre2 @ [(A, t3)]) ?k
                   + contribution ((B, t4) # post2) ?k
                   + (\<Sum>v \<in> authors data - {u1, u2}. contribution (authorSequence v data) ?k))"
    using h transitionCount_two_authors [of u1 data u2 ?k] by simp
next
  assume h: "u \<in> authors data \<and> authorSequence u data = pre @ (T, t5) # (T, t6) # post"
  have "contribution (authorSequence u data) k
          = contribution (pre @ [(T, t5)]) k + contribution ((T, t6) # post) k"
    using h contribution_adjacent [of pre "(T, t5)" "(T, t6)" post k] by simp
  then show "transitionCount data k
            = contribution (pre @ [(T, t5)]) k + contribution ((T, t6) # post) k
              + (\<Sum>v \<in> authors data - {u}. contribution (authorSequence v data) k)"
    using h transitionCount_one_author [of u data k] by simp
qed

theorem transition_count_by_adjacency_witness:
  "authors mixedData = {''u1'', ''u2''}
   \<and> authorSequence ''u1'' mixedData = [(''X'', 0), (''A'', 1), (''A'', 2), (''B'', 3)]
   \<and> authorSequence ''u2'' mixedData = [(''A'', 0), (''B'', 2)]
   \<and> transitionCount mixedData ''A|B'' = 2
   \<and> transitionCount mixedData ''X|A'' = 1"
proof -
  have au: "authors mixedData = {''u1'', ''u2''}"
    by (auto simp: authors_def mixedData_def examplePost_def validPost_def)
  have s1: "authorSequence ''u1'' mixedData = [(''X'', 0), (''A'', 1)] @ (''A'', 2) # (''B'', 3) # []"
    and s2: "authorSequence ''u2'' mixedData = [] @ (''A'', 0) # (''B'', 2) # []"
    by (simp_all add: authorSequence_def rawSequence_def mixedData_def examplePost_def
        validPost_def)
  have s1': "authorSequence ''u1'' mixedData = [(''X'', 0)] @ (''A'', 1) # (''A'', 2) # [(''B'', 3)]"
    using s1 by simp
  have rest: "authors mixedData - {''u1'', ''u2''} = {}" "authors mixedData - {''u1''} = {''u2''}"
    using au by auto
  have c: "contribution ([(''X'', 0), (''A'', 1)] @ [(''A'', 2)]) ''A|B'' = 0"
    "contribution [(''B'', 3)] ''A|B'' = 0"
    "contribution ([] @ [(''A'', 0)]) ''A|B'' = 0"
    "contribution [(''B'', 2)] ''A|B'' = 0"
    "contribution ([(''X'', 0)] @ [(''A'', 1)]) ''X|A'' = 1"
    "contribution ((''A'', 2) # [(''B'', 3)]) ''X|A'' = 0"
    "contribution [(''A'', 0), (''B'', 2)] ''X|A'' = 0"
    by code_simp+
  have "''u1'' \<in> authors mixedData" "''u2'' \<in> authors mixedData" "''u1'' \<noteq> ''u2''" "''A'' \<noteq> ''B''"
    using au by simp_all
  then have "transitionCount mixedData (''A'' @ ''|'' @ ''B'') = 2"
    using transition_count_by_adjacency [of mixedData k pre a b post "''u1''" "''u2''" "''A''" "''B''"
        "[(''X'', 0), (''A'', 1)]" 2 3 "[]" "[]" 0 2 "[]" u T t5 t6]
      s1 s2 c rest by simp
  moreover have "transitionCount mixedData ''X|A'' = 1"
    using transition_count_by_adjacency [of mixedData "''X|A''" "[(''X'', 0)]" a b "[(''B'', 3)]"
        u1 u2 A B pre1 t1 t2 post1 pre2 t3 t4 post2 "''u1''" "''A''" 1 2]
      \<open>''u1'' \<in> authors mixedData\<close> s1' s2 c rest by simp
  ultimately show ?thesis
    using au s1 s2 by simp
qed

text \<open>
  C7, as stated, fails: two authors each post topic A, then topic C, then topic B, at
  increasing times, and the count of the transition from A to B is 0.
\<close>

theorem adjacent_only_counterexample:
  "map user detourData = [''u1'', ''u1'', ''u1'', ''u2'', ''u2'', ''u2'']
   \<and> map topic detourData = [''A'', ''C'', ''B'', ''A'', ''C'', ''B'']
   \<and> map timestamp detourData = [0, 1, 2, 0, 1, 2]
   \<and> transitionCount detourData ''A|B'' = 0"
  by code_simp

subsection \<open>Rule direction when no item holds the bar\<close>

lemma splitOn_no_sep: "sep \<notin> set s \<Longrightarrow> splitOn sep s = [s]"
  by (induction s) auto

lemma splitOn_sep: "sep \<notin> set x \<Longrightarrow> splitOn sep (x @ sep # y) = x # splitOn sep y"
  by (induction x) auto

lemma firstTwo_pairKey:
  assumes "CHR ''|'' \<notin> set a" "CHR ''|'' \<notin> set b"
  shows "firstTwo (splitOn (CHR ''|'') (pairKeyOf (a, b))) = (min a b, max a b)"
proof (cases "a \<le> b")
  case True
  then have "pairKeyOf (a, b) = a @ CHR ''|'' # b"
    by (simp add: pairKeyOf_def)
  then show ?thesis
    using True assms by (simp add: splitOn_sep splitOn_no_sep)
next
  case False
  then have "pairKeyOf (a, b) = b @ CHR ''|'' # a"
    by (simp add: pairKeyOf_def)
  then show ?thesis
    using False assms by (simp add: splitOn_sep splitOn_no_sep min_def max_def)
qed

lemma pairsOf_members: "(a, b) \<in> set (pairsOf xs) \<Longrightarrow> a \<in> set xs \<and> b \<in> set xs"
  by (induction xs) auto

lemma addPair_keys:
  assumes "\<forall>(k, pd) \<in> set m. Q k" "Q (pairKeyOf ab)"
  shows "\<forall>(k, pd) \<in> set (addPair post ab m). Q k"
proof -
  let ?key = "pairKeyOf ab"
  let ?m = "if map_of m ?key = None
            then AList.update ?key \<lparr>count = 0, topics_seen = [], posts_kept = []\<rparr> m else m"
  have m': "\<forall>(k, pd) \<in> set ?m. Q k"
    using assms by (auto dest!: set_update_cases)
  show ?thesis
  proof (cases "map_of ?m ?key")
    case None
    then show ?thesis using m' by (simp add: addPair_def Let_def)
  next
    case (Some pd)
    have "Q k" if "(k, pd') \<in> set (AList.update ?key v ?m)" for k pd' v
      using that m' assms(2) set_update_cases [of k pd' ?key v ?m] by blast
    then show ?thesis
      using Some unfolding addPair_def Let_def by auto
  qed
qed

lemma itemPairsOf_keys:
  assumes "\<forall>p \<in> set data. \<forall>x \<in> set (itemsOf p). CHR ''|'' \<notin> set x"
  shows "\<forall>(k, pd) \<in> set (itemPairsOf data).
           \<exists>a b. CHR ''|'' \<notin> set a \<and> CHR ''|'' \<notin> set b \<and> k = pairKeyOf (a, b)"
  unfolding itemPairsOf_def
proof (rule fold_inv [where P = "\<lambda>m. \<forall>(k, pd) \<in> set m.
           \<exists>a b. CHR ''|'' \<notin> set a \<and> CHR ''|'' \<notin> set b \<and> k = pairKeyOf (a, b)"])
  fix p and m :: "(string \<times> PairData) list"
  let ?Q = "\<lambda>k. \<exists>a b. CHR ''|'' \<notin> set a \<and> CHR ''|'' \<notin> set b \<and> k = pairKeyOf (a, b)"
  assume p: "p \<in> set data" and m: "\<forall>(k, pd) \<in> set m. ?Q k"
  have "\<forall>(k, pd) \<in> set (fold (addPair p) (pairsOf (itemsOf p)) m). ?Q k"
  proof (rule fold_inv [where P = "\<lambda>m. \<forall>(k, pd) \<in> set m. ?Q k", OF m])
    fix ab and m' :: "(string \<times> PairData) list"
    assume ab: "ab \<in> set (pairsOf (itemsOf p))" and m': "\<forall>(k, pd) \<in> set m'. ?Q k"
    obtain a b where [simp]: "ab = (a, b)" by (cases ab)
    have "CHR ''|'' \<notin> set a \<and> CHR ''|'' \<notin> set b"
      using pairsOf_members [of a b "itemsOf p"] ab assms p by auto
    then have "?Q (pairKeyOf ab)" by auto
    with m' show "\<forall>(k, pd) \<in> set (addPair p ab m'). ?Q k"
      by (rule addPair_keys)
  qed
  then show "\<forall>(k, pd) \<in> set (pairStep p m). ?Q k"
    using m by (simp add: pairStep_def)
qed simp

lemma buildRule_items:
  "antecedent (fst (buildRule data r k pd)) = [fst (firstTwo (splitOn (CHR ''|'') k))]
   \<and> consequent (fst (buildRule data r k pd)) = [snd (firstTwo (splitOn (CHR ''|'') k))]"
  by (simp add: buildRule_def Let_def case_prod_beta)

text \<open>
  In an input none of whose items holds a bar, every rule leads from the lesser item of
  its pair to the greater.
\<close>

lemma rule_direction_without_bar:
  assumes "\<forall>p \<in> set data. \<forall>x \<in> set (itemsOf p). CHR ''|'' \<notin> set x"
  shows "\<forall>r \<in> set (mineAssociationRules rnd data).
           \<exists>x y. antecedent r = [x] \<and> consequent r = [y] \<and> x \<le> y"
proof (rule mineAssociationRules_all)
  fix k pd n
  assume "(k, pd) \<in> set (itemPairsOf data)"
  then obtain a b where "CHR ''|'' \<notin> set a" "CHR ''|'' \<notin> set b" "k = pairKeyOf (a, b)"
    using itemPairsOf_keys [OF assms] by blast
  then have "firstTwo (splitOn (CHR ''|'') k) = (min a b, max a b)"
    by (simp add: firstTwo_pairKey)
  moreover have "min a b \<le> max a b"
    by (rule order_trans [OF min.cobounded1 max.cobounded1])
  ultimately show "\<exists>x y. antecedent (fst (buildRule data (rnd n) k pd)) = [x]
                 \<and> consequent (fst (buildRule data (rnd n) k pd)) = [y] \<and> x \<le> y"
    by (simp add: buildRule_items)
qed

end
